theory Spec2Isabelle
  imports Complex_Main "HOL-Library.Word" "HOL-Library.Signed_Division"
begin

unbundle bit_operations_syntax

section \<open>Go values\<close>

text \<open>
  Go's \<open>byte\<close> and \<open>int64\<close> are machine words: \<open>+\<close>, \<open>-\<close>, \<open>*\<close> and \<open><<\<close> wrap
  around, \<open>sint\<close> reads the two's complement value. A finite \<open>float64\<close> is the real
  number it denotes; the infinities and NaN have no counterpart here.
\<close>

type_synonym byte = "8 word"
type_synonym int64 = "64 word"
type_synonym float64 = real

text \<open>
  The \<open>/\<close> of Go on \<open>int64\<close>: the quotient truncated towards zero, wrapping for
  \<open>MinInt64 / -1\<close>; a zero divisor is a run-time panic, here \<open>None\<close>.
\<close>

definition quo64 :: "int64 \<Rightarrow> int64 \<Rightarrow> int64 option" where
  "quo64 a b = (if b = 0 then None else Some (word_of_int (sint a sdiv sint b)))"

text \<open>
  The rounding of Go's \<open>float64\<close> arithmetic (IEEE 754 binary64, round to nearest, ties
  to even). \<open>ilog2 n\<close> is the position of the highest bit of \<open>n\<close>;
  \<open>float64_exponent x\<close> is the \<open>e\<close> with \<open>2^e \<le> |x| < 2^(e+1)\<close>. A \<open>float64\<close> with this
  exponent is a multiple of \<open>2^(e-52)\<close>, and of \<open>2^(-1074)\<close> below \<open>2^(-1022)\<close>;
  \<open>float64_round x\<close> is the nearest such multiple, the even one of two equally near.
  A result beyond the largest finite \<open>float64\<close> would be an infinity: the conversion of
  an \<open>int64\<close> and its quotient by 10, the only arithmetic of the two files, stay far
  below.
\<close>

fun ilog2 :: "nat \<Rightarrow> nat" where
  "ilog2 n = (if n < 2 then 0 else Suc (ilog2 (n div 2)))"

declare ilog2.simps [simp del]

definition float64_exponent :: "real \<Rightarrow> int" where
  "float64_exponent x =
     (if 1 \<le> \<bar>x\<bar> then int (ilog2 (nat \<lfloor>\<bar>x\<bar>\<rfloor>))
      else - int (Suc (ilog2 (nat \<lceil>1 / \<bar>x\<bar>\<rceil> - 1))))"

definition round_half_even :: "real \<Rightarrow> int" where
  "round_half_even y =
     (if y - of_int \<lfloor>y\<rfloor> < 1 / 2 then \<lfloor>y\<rfloor>
      else if 1 / 2 < y - of_int \<lfloor>y\<rfloor> then \<lfloor>y\<rfloor> + 1
      else if even \<lfloor>y\<rfloor> then \<lfloor>y\<rfloor> else \<lfloor>y\<rfloor> + 1)"

definition float64_round :: "real \<Rightarrow> float64" where
  "float64_round x =
     (if x = 0 then 0
      else of_int (round_half_even (x / 2 powi (max (float64_exponent x) (- 1022) - 52))) *
           2 powi (max (float64_exponent x) (- 1022) - 52))"

text \<open>
  The conversion \<open>float64(n)\<close> of an \<open>int64\<close> (it rounds beyond \<open>2^53\<close>), and the
  \<open>/\<close> of Go on \<open>float64\<close> for a divisor other than 0.
\<close>

definition float64_of_int64 :: "int64 \<Rightarrow> float64" where
  "float64_of_int64 n = float64_round (real_of_int (sint n))"

definition float64_quo :: "float64 \<Rightarrow> float64 \<Rightarrow> float64" where
  "float64_quo x y = float64_round (x / y)"

text \<open>
  The conversions \<open>int(x)\<close> and \<open>int64(x)\<close> of a \<open>float64\<close>: the fraction is
  discarded (truncation towards zero). When the truncated value does not fit \<open>int64\<close>,
  Go leaves the result to the implementation: \<open>platform x\<close> stands for what the machine
  gives then (\<open>MinInt64\<close> on amd64).
\<close>

definition int_of_float64 :: "float64 \<Rightarrow> int" where
  "int_of_float64 x = (if 0 \<le> x then \<lfloor>x\<rfloor> else \<lceil>x\<rceil>)"

definition int64_of_float64 :: "(float64 \<Rightarrow> int64) \<Rightarrow> float64 \<Rightarrow> int64" where
  "int64_of_float64 platform x =
     (if - (2 ^ 63) \<le> int_of_float64 x \<and> int_of_float64 x < 2 ^ 63
      then word_of_int (int_of_float64 x) else platform x)"

text \<open>
  An index expression \<open>xs[i]\<close>: out of range is a run-time panic, here \<open>None\<close>.
\<close>

definition index :: "'a list \<Rightarrow> nat \<Rightarrow> 'a option" where
  "index xs i = (if i < length xs then Some (xs ! i) else None)"

text \<open>
  What a call of \<open>Usage\<close> does: it returns \<open>nil\<close>, it returns an error, or it panics.
\<close>

datatype error =
    ReadError
  | PdhOpenQueryFailed "64 word"
  | PdhAddCounterFailed "64 word"
  | PdhCollectQueryDataFailed "64 word"
  | GetCounterArrayDataFailed "32 word"
  | PidNotFound

datatype ret = Nil | Err error | Panic

text \<open>
  The three output locations \<open>pcpu\<close>, \<open>rss\<close> and \<open>vss\<close> that \<open>Usage\<close> writes through
  its pointer arguments (taken to be three distinct, valid locations).
\<close>

record usage_out =
  pcpu :: float64
  rss :: int64
  vss :: int64

section \<open>proc\_linux.go\<close>

subsection \<open>bytes.Fields\<close>

text \<open>
  \<open>bytes.Fields\<close> of the Go library splits around runs of white space as
  \<open>unicode.IsSpace\<close> defines it, on the UTF-8 decoding of the input. \<open>spaceWidth\<close> is
  the number of bytes of the white-space rune encoded at the head of the input, 0 when
  there is none: the six ASCII spaces, U+0085, U+00A0, U+1680, U+2000 to U+200A, U+2028,
  U+2029, U+202F, U+205F and U+3000. The first byte of such an encoding is never a
  continuation byte, so the decoder always starts a rune there.
\<close>

definition asciiSpace :: "byte \<Rightarrow> bool" where
  "asciiSpace b \<longleftrightarrow> b = 9 \<or> b = 10 \<or> b = 11 \<or> b = 12 \<or> b = 13 \<or> b = 32"

fun spaceWidth :: "byte list \<Rightarrow> nat" where
  "spaceWidth [] = 0"
| "spaceWidth (b # bs) =
     (if asciiSpace b then 1
      else if b = 0xC2 \<and> (take 1 bs = [0x85] \<or> take 1 bs = [0xA0]) then 2
      else if b = 0xE1 \<and> take 2 bs = [0x9A, 0x80] then 3
      else if b = 0xE2 \<and> take 1 bs = [0x80] \<and> length bs \<ge> 2 \<and>
              (bs ! 1 \<in> {0x80, 0x81, 0x82, 0x83, 0x84, 0x85, 0x86, 0x87, 0x88, 0x89, 0x8A,
                          0xA8, 0xA9, 0xAF}) then 3
      else if b = 0xE2 \<and> take 2 bs = [0x81, 0x9F] then 3
      else if b = 0xE3 \<and> take 2 bs = [0x80, 0x80] then 3
      else 0)"

function fieldsFrom :: "byte list \<Rightarrow> byte list \<Rightarrow> byte list list" where
  "fieldsFrom cur [] = (if cur = [] then [] else [cur])"
| "fieldsFrom cur (b # bs) =
     (if spaceWidth (b # bs) = 0 then fieldsFrom (cur @ [b]) bs
      else (if cur = [] then [] else [cur]) @ fieldsFrom [] (drop (spaceWidth (b # bs) - 1) bs))"
  by pat_completeness auto
termination
  by (relation "measure (\<lambda>(cur, s). length s)") auto

definition Fields :: "byte list \<Rightarrow> byte list list" where
  "Fields s = fieldsFrom [] s"

subsection \<open>The package variables and constants\<close>

record sampler =
  lastTotal :: int64
  lastSeconds :: int64
  ipcpu :: int64

definition ticks :: int64 where
  "ticks = 100"

definition utimePos :: nat where "utimePos = 13"
definition stimePos :: nat where "stimePos = 14"
definition startPos :: nat where "startPos = 21"
definition vssPos :: nat where "vssPos = 22"
definition rssPos :: nat where "rssPos = 23"

definition asciiZero :: byte where "asciiZero = 48"
definition asciiNine :: byte where "asciiNine = 57"

subsection \<open>parseInt64\<close>

text \<open>The \<open>for ... range d\<close> loop of \<open>parseInt64\<close>, \<open>n\<close> being the named result.\<close>

fun parseInt64_loop :: "int64 \<Rightarrow> byte list \<Rightarrow> int64" where
  "parseInt64_loop n [] = n"
| "parseInt64_loop n (dec # d) =
     (if dec < asciiZero \<or> dec > asciiNine then - 1
      else parseInt64_loop (n * 10 + (ucast dec - ucast asciiZero)) d)"

definition parseInt64 :: "byte list \<Rightarrow> int64" where
  "parseInt64 d = (if length d = 0 then - 1 else parseInt64_loop 0 d)"

subsection \<open>periodic\<close>

text \<open>
  One run of \<open>periodic\<close>. Its inputs are what \<open>ioutil.ReadFile\<close> gives (\<open>None\<close>: an
  error) and the \<open>Uptime\<close> that \<open>syscall.Sysinfo\<close> gives (\<open>None\<close>: an error). It
  returns the package variables after the run, and what the run did: \<open>Rescheduled d\<close> when
  it reached \<open>time.AfterFunc(d, periodic)\<close>, \<open>Stopped\<close> when it returned before,
  \<open>Crashed\<close> when it panicked. Durations are in nanoseconds.
\<close>

datatype tick = Rescheduled int | Stopped | Crashed

definition second :: int where
  "second = 1000000000"

definition periodic :: "byte list option \<Rightarrow> int64 option \<Rightarrow> sampler \<Rightarrow> sampler \<times> tick" where
  "periodic readFile sysinfo st =
     (case readFile of
        None \<Rightarrow> (st, Stopped)
      | Some contents \<Rightarrow>
         (let fields = Fields contents in
          (case index fields startPos of
             None \<Rightarrow> (st, Crashed)
           | Some f_start \<Rightarrow>
          (case index fields utimePos of
             None \<Rightarrow> (st, Crashed)
           | Some f_utime \<Rightarrow>
          (case index fields stimePos of
             None \<Rightarrow> (st, Crashed)
           | Some f_stime \<Rightarrow>
            (let pstart = parseInt64 f_start;
                 utime = parseInt64 f_utime;
                 stime = parseInt64 f_stime;
                 total = utime + stime
             in (case sysinfo of
                   None \<Rightarrow> (st, Stopped)
                 | Some uptime \<Rightarrow>
                  (case quo64 pstart ticks of
                     None \<Rightarrow> (st, Crashed)
                   | Some q \<Rightarrow>
                      (let seconds = uptime - q;
                           lt = lastTotal st;
                           ls = lastSeconds st;
                           st1 = st\<lparr>lastTotal := total, lastSeconds := seconds\<rparr>;
                           total' = total - lt;
                           seconds' = seconds - ls
                       in if 0 <s seconds' then
                            (case quo64 (total' * 1000) ticks of
                               None \<Rightarrow> (st1, Crashed)
                             | Some m \<Rightarrow>
                            (case quo64 m seconds' of
                               None \<Rightarrow> (st1, Crashed)
                             | Some v \<Rightarrow> (st1\<lparr>ipcpu := v\<rparr>, Rescheduled (1 * second))))
                          else (st1, Rescheduled (1 * second)))))))))))"

subsection \<open>Usage\<close>

text \<open>
  \<open>Usage\<close> of proc\_linux.go: its inputs are what \<open>ioutil.ReadFile\<close> gives, the package
  variables (it loads \<open>ipcpu\<close>) and the content of the three output locations before the
  call; it returns what the call did and the content of the output locations after it.
\<close>

definition Usage_linux :: "byte list option \<Rightarrow> sampler \<Rightarrow> usage_out \<Rightarrow> ret \<times> usage_out" where
  "Usage_linux readFile st out =
     (case readFile of
        None \<Rightarrow> (Err ReadError, out)
      | Some contents \<Rightarrow>
          let fields = Fields contents in
          (case index fields rssPos of None \<Rightarrow> (Panic, out) | Some f_rss \<Rightarrow>
             let out1 = out\<lparr>rss := push_bit 12 (parseInt64 f_rss)\<rparr> in
             (case index fields vssPos of None \<Rightarrow> (Panic, out1) | Some f_vss \<Rightarrow>
                let out2 = out1\<lparr>vss := parseInt64 f_vss\<rparr>;
                    out3 = out2\<lparr>pcpu := float64_quo (float64_of_int64 (ipcpu st)) 10\<rparr>
                in (Nil, out3))))"

section \<open>proc\_windows.go\<close>

subsection \<open>The performance-counter library and the rest of the environment\<close>

text \<open>
  \<open>PDH_HQUERY\<close> and \<open>PDH_HCOUNTER\<close> are \<open>syscall.Handle\<close>, a \<open>uintptr\<close>. The
  calls that reach pdh.dll (and \<open>time.Sleep\<close>) are recorded in the order they are made.
\<close>

type_synonym handle = "64 word"

datatype call =
    PdhOpenQuery
  | PdhAddCounterW handle string
  | PdhCollectQueryData handle
  | PdhGetFormattedCounterArrayW handle "32 word" "32 word"
  | Sleep int

text \<open>
  What the environment answers during one call of \<open>Usage\<close>, one field for each place
  of the source that asks:
  \<^item> \<open>os_getpid\<close>: \<open>os.Getpid()\<close>; \<open>os_args0\<close>: \<open>os.Args[0]\<close>; \<open>filepath_Base\<close>: the
    library function \<open>filepath.Base\<close>;
  \<^item> \<open>os_open\<close>: the status \<open>r0\<close> of \<open>PdhOpenQuery\<close> and the content of the query variable
    after the call;
  \<^item> \<open>os_add q path\<close>: the status of \<open>PdhAddCounterW\<close> and the content of the counter
    variable after the call;
  \<^item> \<open>os_collect0\<close>, \<open>os_collect\<close>: the status of \<open>PdhCollectQueryData\<close> in
    \<open>initCounters\<close> and in \<open>Usage\<close>;
  \<^item> \<open>os_probe c\<close>: the first \<open>PdhGetFormattedCounterArrayW\<close> of
    \<open>getCounterArrayData\<close>, on the one-item buffer: the status (as \<open>uint32\<close>),
    \<open>bufSize\<close> and \<open>bufCount\<close> after the call;
  \<^item> \<open>os_fetch c bufSize bufCount\<close>: the second one, on \<open>counterResults\<close>: the status,
    \<open>bufCount\<close> after the call and the \<open>DoubleValue\<close> of each item of \<open>counterResults\<close>
    after the call, by index;
  \<^item> \<open>os_since\<close>: the clock that \<open>time.Since\<close> reads; \<open>os_now\<close>: the clock that the
    deferred \<open>time.Now()\<close> reads. Times are in nanoseconds;
  \<^item> \<open>os_int64\<close>: what the machine gives for \<open>int64(x)\<close> when \<open>x\<close> is out of range.
\<close>

record os =
  os_getpid :: int
  os_args0 :: string
  filepath_Base :: "string \<Rightarrow> string"
  os_open :: "64 word \<times> handle"
  os_add :: "handle \<Rightarrow> string \<Rightarrow> 64 word \<times> handle"
  os_collect0 :: "64 word"
  os_collect :: "64 word"
  os_probe :: "handle \<Rightarrow> 32 word \<times> 32 word \<times> 32 word"
  os_fetch :: "handle \<Rightarrow> 32 word \<Rightarrow> 32 word \<Rightarrow> 32 word \<times> 32 word \<times> (nat \<Rightarrow> float64)"
  os_since :: int
  os_now :: int
  os_int64 :: "float64 \<Rightarrow> int64"

subsection \<open>The package variables and constants\<close>

record session =
  pcHandle :: handle
  pidCounter :: handle
  cpuCounter :: handle
  rssCounter :: handle
  vssCounter :: handle
  prevCPU :: float64
  prevRss :: int64
  prevVss :: int64
  lastSampleTime :: int
  processPid :: int
  initialSample :: bool

definition maxQuerySize :: nat where
  "maxQuerySize = 512"

definition PDH_MORE_DATA :: "32 word" where
  "PDH_MORE_DATA = 0x800007D2"

subsection \<open>The wrappers of the library calls\<close>

definition pdhAddCounter :: "os \<Rightarrow> handle \<Rightarrow> string \<Rightarrow> error option \<times> handle" where
  "pdhAddCounter env hQuery szFullCounterPath =
     (case os_add env hQuery szFullCounterPath of
        (r0, phCounter) \<Rightarrow>
          (if r0 \<noteq> 0 then Some (PdhAddCounterFailed r0) else None, phCounter))"

definition pdhOpenQuery :: "os \<Rightarrow> error option \<times> handle" where
  "pdhOpenQuery env =
     (case os_open env of
        (r0, query) \<Rightarrow> (if r0 \<noteq> 0 then Some (PdhOpenQueryFailed r0) else None, query))"

definition pdhCollectQueryData :: "64 word \<Rightarrow> error option" where
  "pdhCollectQueryData r0 = (if r0 \<noteq> 0 then Some (PdhCollectQueryDataFailed r0) else None)"

subsection \<open>getCounterArrayData\<close>

text \<open>
  The function returns a slice (\<open>nil\<close> is the empty list) or an error, or it panics:
  \<open>counterResults\<close> has \<open>maxQuerySize\<close> items, and the copying loop indexes it up to
  \<open>bufCount\<close> as the second library call left it.
\<close>

datatype 'a outcome = Value 'a | Failure error | Abort

definition getCounterArrayData :: "os \<Rightarrow> handle \<Rightarrow> float64 list outcome \<times> call list" where
  "getCounterArrayData env counter =
     (case os_probe env counter of
        (ret, bufSize, bufCount) \<Rightarrow>
          (if ret = PDH_MORE_DATA then
             (let bufCount1 = (if unat bufCount > maxQuerySize then of_nat maxQuerySize else bufCount);
                  calls = [PdhGetFormattedCounterArrayW counter 0 0,
                           PdhGetFormattedCounterArrayW counter bufSize bufCount1]
              in (case os_fetch env counter bufSize bufCount1 of
                    (ret2, bufCount2, results) \<Rightarrow>
                      (if ret2 = 0 then
                         (if unat bufCount2 \<le> maxQuerySize
                          then (Value (map results [0 ..< unat bufCount2]), calls)
                          else (Abort, calls))
                       else (Failure (GetCounterArrayDataFailed ret2), calls))))
           else if ret \<noteq> 0 then
             (Failure (GetCounterArrayDataFailed ret), [PdhGetFormattedCounterArrayW counter 0 0])
           else (Value [], [PdhGetFormattedCounterArrayW counter 0 0])))"

subsection \<open>getProcessExeName\<close>

text \<open>
  \<open>strings.TrimRight(s, cutset)\<close> of the Go library for an ASCII cutset: while the last
  byte of \<open>s\<close> is in the cutset, drop it.
\<close>

function TrimRight :: "string \<Rightarrow> string \<Rightarrow> string" where
  "TrimRight s cutset =
     (if s \<noteq> [] \<and> last s \<in> set cutset then TrimRight (butlast s) cutset else s)"
  by pat_completeness auto
termination
  by (relation "measure (\<lambda>(s, cutset). length s)") auto

declare TrimRight.simps [simp del]

definition getProcessExeName :: "os \<Rightarrow> string" where
  "getProcessExeName env = TrimRight (filepath_Base env (os_args0 env)) ''.exe''"

subsection \<open>initCounters\<close>

definition backslash :: char where
  "backslash = CHR 0x5C"

definition counterPath :: "string \<Rightarrow> string \<Rightarrow> string" where
  "counterPath name metric = backslash # ''Process('' @ name @ '')'' @ backslash # metric"

definition initCounters :: "os \<Rightarrow> session \<Rightarrow> error option \<times> session \<times> call list" where
  "initCounters env s =
     (let s0 = s\<lparr>processPid := os_getpid env\<rparr>;
          s1 = s0\<lparr>pcHandle := snd (pdhOpenQuery env)\<rparr>;
          name = getProcessExeName env @ ''*'';
          pidQuery = counterPath name ''ID Process'';
          cpuQuery = counterPath name ''% Processor Time'';
          rssQuery = counterPath name ''Working Set - Private'';
          vssQuery = counterPath name ''Virtual Bytes'';
          s2 = s1\<lparr>pidCounter := snd (pdhAddCounter env (pcHandle s1) pidQuery)\<rparr>;
          s3 = s2\<lparr>cpuCounter := snd (pdhAddCounter env (pcHandle s1) cpuQuery)\<rparr>;
          s4 = s3\<lparr>rssCounter := snd (pdhAddCounter env (pcHandle s1) rssQuery)\<rparr>;
          s5 = s4\<lparr>vssCounter := snd (pdhAddCounter env (pcHandle s1) vssQuery)\<rparr>;
          c1 = [PdhOpenQuery];
          c2 = c1 @ [PdhAddCounterW (pcHandle s1) pidQuery];
          c3 = c2 @ [PdhAddCounterW (pcHandle s1) cpuQuery];
          c4 = c3 @ [PdhAddCounterW (pcHandle s1) rssQuery];
          c5 = c4 @ [PdhAddCounterW (pcHandle s1) vssQuery];
          c6 = c5 @ [PdhCollectQueryData (pcHandle s1)]
      in if fst (pdhOpenQuery env) \<noteq> None then (fst (pdhOpenQuery env), s1, c1)
         else if fst (pdhAddCounter env (pcHandle s1) pidQuery) \<noteq> None
           then (fst (pdhAddCounter env (pcHandle s1) pidQuery), s2, c2)
         else if fst (pdhAddCounter env (pcHandle s1) cpuQuery) \<noteq> None
           then (fst (pdhAddCounter env (pcHandle s1) cpuQuery), s3, c3)
         else if fst (pdhAddCounter env (pcHandle s1) rssQuery) \<noteq> None
           then (fst (pdhAddCounter env (pcHandle s1) rssQuery), s4, c4)
         else if fst (pdhAddCounter env (pcHandle s1) vssQuery) \<noteq> None
           then (fst (pdhAddCounter env (pcHandle s1) vssQuery), s5, c5)
         else if pdhCollectQueryData (os_collect0 env) \<noteq> None
           then (pdhCollectQueryData (os_collect0 env), s5, c6)
         else (None, s5, c6 @ [Sleep 50]))"

subsection \<open>Usage\<close>

text \<open>The loop of \<open>Usage\<close> that looks for the process id, from index \<open>i\<close> on.\<close>

fun findPid :: "float64 list \<Rightarrow> int \<Rightarrow> nat \<Rightarrow> nat option" where
  "findPid [] pid i = None"
| "findPid (v # pidAry) pid i =
     (if int_of_float64 v = pid then Some i else findPid pidAry pid (Suc i))"

text \<open>
  The idiom \<open>if x, err = f(); err != nil { return err }\<close>: the next step runs when the
  step before gave a value, and the library calls of both are recorded in order.
\<close>

definition and_then ::
  "'a outcome \<times> call list \<Rightarrow> ('a \<Rightarrow> 'b outcome \<times> call list) \<Rightarrow> 'b outcome \<times> call list" where
  "and_then m f =
     (case m of
        (Value a, k) \<Rightarrow> (case f a of (r, k') \<Rightarrow> (r, k @ k'))
      | (Failure e, k) \<Rightarrow> (Failure e, k)
      | (Abort, k) \<Rightarrow> (Abort, k))"

text \<open>The collection and the four fetches of \<open>Usage\<close>.\<close>

definition collectArrays ::
  "os \<Rightarrow> session \<Rightarrow>
     (float64 list \<times> float64 list \<times> float64 list \<times> float64 list) outcome \<times> call list" where
  "collectArrays env s =
     and_then (case pdhCollectQueryData (os_collect env) of
                 Some e \<Rightarrow> Failure e | None \<Rightarrow> Value (),
               [PdhCollectQueryData (pcHandle s)]) (\<lambda>_.
     and_then (getCounterArrayData env (pidCounter s)) (\<lambda>pidAry.
     and_then (getCounterArrayData env (cpuCounter s)) (\<lambda>cpuAry.
     and_then (getCounterArrayData env (rssCounter s)) (\<lambda>rssAry.
     and_then (getCounterArrayData env (vssCounter s)) (\<lambda>vssAry.
       (Value (pidAry, cpuAry, rssAry, vssAry), []))))))"

text \<open>
  The search for the process id in \<open>pidAry\<close> and the three assignments to the output
  locations, each after its index expression.
\<close>

definition resolvePid ::
  "os \<Rightarrow> float64 list \<Rightarrow> float64 list \<Rightarrow> float64 list \<Rightarrow> float64 list \<Rightarrow> int \<Rightarrow>
     usage_out \<Rightarrow> ret \<times> usage_out" where
  "resolvePid env pidAry cpuAry rssAry vssAry pid out =
     (case findPid pidAry pid 0 of
        None \<Rightarrow> (Err PidNotFound, out)
      | Some idx \<Rightarrow>
         (case index cpuAry idx of
            None \<Rightarrow> (Panic, out)
          | Some c \<Rightarrow>
             (case index rssAry idx of
                None \<Rightarrow> (Panic, out\<lparr>pcpu := c\<rparr>)
              | Some r \<Rightarrow>
                 (case index vssAry idx of
                    None \<Rightarrow>
                      (Panic, out\<lparr>pcpu := c, rss := int64_of_float64 (os_int64 env) r\<rparr>)
                  | Some v \<Rightarrow>
                      (Nil, out\<lparr>pcpu := c, rss := int64_of_float64 (os_int64 env) r,
                                 vss := int64_of_float64 (os_int64 env) v\<rparr>)))))"

text \<open>
  \<open>Usage\<close> from the collection on, without the deferred function: what it returns, the
  output locations, the package variables and the library calls it made. The three
  \<open>prev\<close> variables are assigned after the output locations, on the way to
  \<open>return nil\<close> only.
\<close>

definition collectSample ::
  "os \<Rightarrow> session \<Rightarrow> usage_out \<Rightarrow> ret \<times> usage_out \<times> session \<times> call list" where
  "collectSample env s out =
     (case collectArrays env s of
        (Failure e, k) \<Rightarrow> (Err e, out, s, k)
      | (Abort, k) \<Rightarrow> (Panic, out, s, k)
      | (Value (pidAry, cpuAry, rssAry, vssAry), k) \<Rightarrow>
          (case resolvePid env pidAry cpuAry rssAry vssAry (processPid s) out of
             (Nil, out') \<Rightarrow>
               (Nil, out', s\<lparr>prevCPU := pcpu out', prevRss := rss out', prevVss := vss out'\<rparr>, k)
           | (r, out') \<Rightarrow> (r, out', s, k)))"

text \<open>
  The deferred function: it runs when \<open>Usage\<close> leaves after the \<open>defer\<close> statement, on
  a return and on a panic alike.
\<close>

definition deferred ::
  "os \<Rightarrow> ret \<times> usage_out \<times> session \<times> call list \<Rightarrow> ret \<times> usage_out \<times> session \<times> call list" where
  "deferred env r =
     (case r of (e, out, s, k) \<Rightarrow> (e, out, s\<lparr>lastSampleTime := os_now env\<rparr>, k))"

definition Usage_windows ::
  "os \<Rightarrow> session \<Rightarrow> usage_out \<Rightarrow> ret \<times> usage_out \<times> session \<times> call list" where
  "Usage_windows env s out =
     (if initialSample s then
        (case initCounters env s of
           (Some e, s1, k) \<Rightarrow> (Err e, out, s1, k)
         | (None, s1, k) \<Rightarrow>
             (case deferred env (collectSample env (s1\<lparr>initialSample := False\<rparr>) out) of
                (e, out', s2, k') \<Rightarrow> (e, out', s2, k @ k')))
      else if os_since env - lastSampleTime s < 2 * second then
        (Nil, out\<lparr>pcpu := prevCPU s, rss := prevRss s, vss := prevVss s\<rparr>, s, [])
      else deferred env (collectSample env s out))"

text \<open>
  A sequence of calls of \<open>Usage\<close>, each with its environment and its output locations:
  the package variables after the last one, and the library calls of all of them.
\<close>

fun Usage_calls :: "(os \<times> usage_out) list \<Rightarrow> session \<Rightarrow> session \<times> call list" where
  "Usage_calls [] s = (s, [])"
| "Usage_calls ((env, out) # rest) s =
     (case Usage_windows env s out of
        (e, out', s', k) \<Rightarrow> (case Usage_calls rest s' of (s'', k') \<Rightarrow> (s'', k @ k')))"

text \<open>The library calls that only \<open>initCounters\<close> makes.\<close>

fun is_init_call :: "call \<Rightarrow> bool" where
  "is_init_call PdhOpenQuery = True"
| "is_init_call (PdhAddCounterW q p) = True"
| "is_init_call c = False"

text \<open>The conversion \<open>[]byte(s)\<close> of a string.\<close>

definition bytes :: "string \<Rightarrow> byte list" where
  "bytes s = map of_char s"

section \<open>Example inputs\<close>

text \<open>
  The package variables of proc\_windows.go when the program starts, and an environment
  in which every library call succeeds: the process image is \<open>node.exe\<close> (a path with
  no separator, which \<open>filepath.Base\<close> returns as it is), the process id is 42, and a
  counter's handle is the length of its path. Out of range, \<open>int64(x)\<close> is \<open>MinInt64\<close>.
\<close>

definition initial_session :: session where
  "initial_session = \<lparr>pcHandle = 0, pidCounter = 0, cpuCounter = 0, rssCounter = 0, vssCounter = 0,
     prevCPU = 0, prevRss = 0, prevVss = 0, lastSampleTime = 0, processPid = 0,
     initialSample = True\<rparr>"

definition os_example :: os where
  "os_example = \<lparr>os_getpid = 42, os_args0 = ''node.exe'', filepath_Base = (\<lambda>p. p),
     os_open = (0, 1), os_add = (\<lambda>q p. (0, of_nat (length p))),
     os_collect0 = 0, os_collect = 0,
     os_probe = (\<lambda>c. (PDH_MORE_DATA, 48, 2)),
     os_fetch = (\<lambda>c bufSize bufCount. (0, 2,
        (\<lambda>i. (if c = 25 then [7, 42] else if c = 31 then [12.5, 2.5]
              else if c = 36 then [1000, 2000] else [3000, 4000]) ! i))),
     os_since = 0, os_now = 0, os_int64 = (\<lambda>x. - 9223372036854775808)\<rparr>"

text \<open>
  The same environment with the clock at \<open>t\<close>; the same with every counter array
  equal to \<open>[42]\<close>; and the session that the first call leaves when it samples at
  time 0.
\<close>

definition os_at :: "int \<Rightarrow> os" where
  "os_at t = os_example\<lparr>os_getpid := 42, os_since := t, os_now := t\<rparr>"

definition os_busy_at :: "int \<Rightarrow> os" where
  "os_busy_at t = (os_at t)\<lparr>os_fetch := (\<lambda>c bufSize bufCount. (0, 1, (\<lambda>i. 42)))\<rparr>"

definition sampled_session :: session where
  "sampled_session = \<lparr>pcHandle = 1, pidCounter = 25, cpuCounter = 31, rssCounter = 36,
     vssCounter = 28, prevCPU = 5 / 2, prevRss = 2000, prevVss = 4000, lastSampleTime = 0,
     processPid = 42, initialSample = False\<rparr>"



section \<open>Properties of the conversions\<close>

text \<open>
  The exponent is the one that brackets \<open>|x|\<close> between two powers of 2, the rounding to
  an integer moves by a half at most, and a value that is a multiple of its unit, such as
  an integer below \<open>2^53\<close>, is not changed by \<open>float64_round\<close>.
\<close>

lemma ilog2_bounds: "0 < n \<Longrightarrow> 2 ^ ilog2 n \<le> n \<and> n < 2 ^ Suc (ilog2 n)"
proof (induction n rule: ilog2.induct)
  case (1 n)
  show ?case
  proof (cases "n < 2")
    case True
    then have "n = 1" using "1.prems" by simp
    then show ?thesis by (simp add: ilog2.simps)
  next
    case False
    then have "0 < n div 2" by simp
    from "1.IH" [OF False this] have "2 ^ ilog2 (n div 2) \<le> n div 2" "n div 2 < 2 ^ Suc (ilog2 (n div 2))"
      by simp_all
    moreover have "ilog2 n = Suc (ilog2 (n div 2))" using False by (simp add: ilog2.simps [of n])
    ultimately show ?thesis by simp linarith
  qed
qed

lemma float64_exponent_bounds:
  assumes "x \<noteq> 0"
  shows "2 powi float64_exponent x \<le> \<bar>x\<bar> \<and> \<bar>x\<bar> < 2 powi (float64_exponent x + 1)"
proof (cases "1 \<le> \<bar>x\<bar>")
  case True
  let ?n = "nat \<lfloor>\<bar>x\<bar>\<rfloor>"
  have n: "0 < ?n" using True by simp
  have e: "float64_exponent x = int (ilog2 ?n)" using True by (simp add: float64_exponent_def)
  from ilog2_bounds [OF n] have a: "2 ^ ilog2 ?n \<le> ?n" and b: "?n < 2 ^ Suc (ilog2 ?n)" by simp_all
  have "real (2 ^ ilog2 ?n) \<le> real ?n" using a by (rule of_nat_mono)
  also have "real ?n \<le> \<bar>x\<bar>" using True by simp
  finally have 1: "2 ^ ilog2 ?n \<le> \<bar>x\<bar>" by simp
  have "\<lfloor>\<bar>x\<bar>\<rfloor> < 2 ^ Suc (ilog2 ?n)" using b True
    by (metis (mono_tags, opaque_lifting) nat_less_iff of_nat_less_iff of_nat_numeral of_nat_power abs_ge_zero zero_le_floor)
  then have "\<bar>x\<bar> < of_int (2 ^ Suc (ilog2 ?n))" by (simp add: floor_less_iff)
  then have 2: "\<bar>x\<bar> < 2 ^ Suc (ilog2 ?n)" by simp
  show ?thesis using 1 2 unfolding e by (simp add: power_int_def nat_add_distrib)
next
  case False
  let ?m = "nat \<lceil>1 / \<bar>x\<bar>\<rceil>"
  have x: "0 < \<bar>x\<bar>" "\<bar>x\<bar> < 1" using assms False by simp_all
  then have y: "1 < 1 / \<bar>x\<bar>" by simp
  then have m: "2 \<le> ?m" by (simp add: le_nat_iff le_ceiling_iff)
  have e: "float64_exponent x = - int (Suc (ilog2 (?m - 1)))" using False by (simp add: float64_exponent_def)
  have p: "0 < ?m - 1" using m by linarith
  from ilog2_bounds [OF p] have a: "2 ^ ilog2 (?m - 1) \<le> ?m - 1" and b: "?m - 1 < 2 ^ Suc (ilog2 (?m - 1))" by simp_all
  have "?m \<le> 2 ^ Suc (ilog2 (?m - 1))" using b by linarith
  then have "real ?m \<le> 2 ^ Suc (ilog2 (?m - 1))"
    by (metis of_nat_le_iff of_nat_numeral of_nat_power)
  moreover have "1 / \<bar>x\<bar> \<le> real ?m" using y by (simp add: of_nat_nat le_of_int_ceiling)
  ultimately have "1 / \<bar>x\<bar> \<le> 2 ^ Suc (ilog2 (?m - 1))" by linarith
  then have 1: "1 / 2 ^ Suc (ilog2 (?m - 1)) \<le> \<bar>x\<bar>" using x(1)
    by (simp add: field_simps)
  have "2 ^ ilog2 (?m - 1) < ?m" using a m by linarith
  then have "real (2 ^ ilog2 (?m - 1)) < real ?m" by (rule of_nat_less_iff [THEN iffD2])
  moreover have "(1::real) < of_int \<lceil>1 / \<bar>x\<bar>\<rceil>"
    using y le_of_int_ceiling [of "1 / \<bar>x\<bar>"] by linarith
  then have "real ?m = of_int \<lceil>1 / \<bar>x\<bar>\<rceil>" by simp
  ultimately have "(2::real) ^ ilog2 (?m - 1) < of_int \<lceil>1 / \<bar>x\<bar>\<rceil>" by simp
  then have "(of_int (2 ^ ilog2 (?m - 1)) :: real) < of_int \<lceil>1 / \<bar>x\<bar>\<rceil>" by simp
  then have "(2::int) ^ ilog2 (?m - 1) < \<lceil>1 / \<bar>x\<bar>\<rceil>" by (simp only: of_int_less_iff)
  then have "(of_int (2 ^ ilog2 (?m - 1)) :: real) < 1 / \<bar>x\<bar>" by (simp only: less_ceiling_iff)
  then have 2: "\<bar>x\<bar> < 1 / 2 ^ ilog2 (?m - 1)" using x(1) by (simp add: field_simps)
  have e1: "float64_exponent x + 1 = - int (ilog2 (?m - 1))" by (simp add: e)
  have "(2::real) powi (- int (Suc (ilog2 (?m - 1)))) = 1 / 2 ^ Suc (ilog2 (?m - 1))"
    "(2::real) powi (- int (ilog2 (?m - 1))) = 1 / 2 ^ ilog2 (?m - 1)"
    by (simp_all only: power_int_minus power_int_of_nat inverse_eq_divide)
  then show ?thesis using 1 2 unfolding e1 unfolding e by simp
qed

lemma round_half_even_int [simp]: "round_half_even (of_int k) = k"
  by (simp add: round_half_even_def)

lemma round_half_even_nearest: "\<bar>of_int (round_half_even y) - y\<bar> \<le> 1 / 2"
  unfolding round_half_even_def by (auto split: if_splits)

lemma float64_round_representable:
  "x = of_int m * 2 powi (max (float64_exponent x) (- 1022) - 52) \<Longrightarrow> float64_round x = x"
proof -
  assume a: "x = of_int m * 2 powi (max (float64_exponent x) (- 1022) - 52)"
  let ?u = "(2::real) powi (max (float64_exponent x) (- 1022) - 52)"
  have u: "?u \<noteq> 0" by simp
  have "x / ?u = of_int m" using a u by (metis nonzero_mult_div_cancel_right)
  then show ?thesis using a by (simp add: float64_round_def)
qed

lemma float64_round_int:
  assumes "\<bar>k\<bar> < 2 ^ 53"
  shows "float64_round (of_int k) = of_int k"
proof (cases "k = 0")
  case True
  then show ?thesis by (simp add: float64_round_def)
next
  case False
  let ?n = "nat \<bar>k\<bar>"
  have n: "0 < ?n" using False by simp
  have e: "float64_exponent (of_int k) = int (ilog2 ?n)"
    using False by (simp add: float64_exponent_def flip: of_int_abs)
  have "2 ^ ilog2 ?n \<le> ?n" using ilog2_bounds [OF n] by simp
  also have "?n < 2 ^ 53" using assms by (simp add: nat_less_iff)
  finally have "ilog2 ?n < 53"
    using power_less_imp_less_exp [of "2::nat" "ilog2 ?n" 53] by simp
  then have l: "ilog2 ?n \<le> 52" by simp
  then have m: "max (int (ilog2 ?n)) (- 1022) - 52 = - int (52 - ilog2 ?n)" by simp
  have h: "(of_int k :: real) = of_int (k * 2 ^ (52 - ilog2 ?n)) * 2 powi (- int (52 - ilog2 ?n))"
    by (simp only: power_int_minus power_int_of_nat) simp
  have "(of_int k :: real) = of_int (k * 2 ^ (52 - ilog2 ?n)) *
      2 powi (max (float64_exponent (of_int k)) (- 1022) - 52)"
    unfolding e m by (rule h)
  then show ?thesis by (rule float64_round_representable)
qed

lemma float64_of_int64_exact:
  "\<bar>sint n\<bar> < 2 ^ 53 \<Longrightarrow> float64_of_int64 n = real_of_int (sint n)"
  unfolding float64_of_int64_def by (rule float64_round_int)

lemma float64_examples:
  "float64_quo (float64_of_int64 0) 10 = 0"
  "float64_quo (float64_of_int64 50) 10 = 5"
  "float64_quo (float64_of_int64 1000) 10 = 100"
  using float64_round_int [of 0] float64_round_int [of 5] float64_round_int [of 100]
  by (simp_all add: float64_quo_def float64_of_int64_exact)

lemma sint_int64_of_float64:
  "- (2 ^ 63) \<le> int_of_float64 x \<Longrightarrow> int_of_float64 x < 2 ^ 63 \<Longrightarrow>
   sint (int64_of_float64 platform x) = int_of_float64 x"
  by (simp add: int64_of_float64_def sint_sbintrunc' signed_take_bit_int_eq_self)

lemma int64_of_float64_examples:
  "int64_of_float64 platform 2000 = 2000" "int64_of_float64 platform 4000 = 4000"
  "int64_of_float64 platform 42 = 42"
  by (simp_all add: int64_of_float64_def int_of_float64_def)

section \<open>Properties of the stat sampler\<close>

subsection \<open>Auxiliary facts\<close>

lemma parseInt64_loop_bad:
  "\<exists>b\<in>set d. b < asciiZero \<or> b > asciiNine \<Longrightarrow> parseInt64_loop n d = - 1"
  by (induction d arbitrary: n) auto

lemma parseInt64_bad:
  "d = [] \<or> (\<exists>b\<in>set d. b < 48 \<or> 57 < b) \<Longrightarrow> parseInt64 d = - 1"
  using parseInt64_loop_bad [of d 0] by (auto simp: parseInt64_def asciiZero_def asciiNine_def)

lemma Usage_linux_Some:
  "Usage_linux (Some contents) st out =
     (if rssPos < length (Fields contents)
      then (Nil, out\<lparr>rss := push_bit 12 (parseInt64 (Fields contents ! rssPos)),
                      vss := parseInt64 (Fields contents ! vssPos),
                      pcpu := float64_quo (float64_of_int64 (ipcpu st)) 10\<rparr>)
      else (Panic, out))"
  by (simp add: Usage_linux_def index_def rssPos_def vssPos_def Let_def)

lemma Usage_linux_None: "Usage_linux None st out = (Err ReadError, out)"
  by (simp add: Usage_linux_def)

lemma sdiv_pos_bounds:
  fixes a b :: int
  assumes "0 < b" "- (2 ^ 63) \<le> a" "a < 2 ^ 63"
  shows "- (2 ^ 63) \<le> a sdiv b \<and> a sdiv b < 2 ^ 63"
proof (cases "0 \<le> a")
  case True
  then have "a sdiv b = a div b" using assms by (simp add: signed_divide_int_def sgn_if)
  moreover have "0 \<le> a div b" "a div b \<le> a" using True assms
    by (simp_all add: pos_imp_zdiv_nonneg_iff) (cases "a = 0", simp_all add: int_div_le_self)
  ultimately show ?thesis using assms by simp
next
  case False
  then have e: "a sdiv b = - ((- a) div b)" using assms by (simp add: signed_divide_int_def sgn_if)
  have "0 \<le> (- a) div b" "(- a) div b \<le> - a" using False assms
    by (simp_all add: pos_imp_zdiv_nonneg_iff int_div_le_self)
  then show ?thesis using assms e by simp
qed

lemma sint_quo64:
  assumes "0 < sint b" "quo64 a b = Some q"
  shows "sint q = sint a sdiv sint b"
proof -
  have q: "q = word_of_int (sint a sdiv sint b)"
    using assms by (auto simp: quo64_def split: if_splits)
  have "- (2 ^ 63) \<le> sint a" "sint a < 2 ^ 63"
    using sint_ge [of a] sint_lt [of a] by simp_all
  then have "- (2 ^ 63) \<le> sint a sdiv sint b \<and> sint a sdiv sint b < 2 ^ 63"
    using assms(1) by (intro sdiv_pos_bounds) simp_all
  then show ?thesis unfolding q by (simp add: sint_sbintrunc' signed_take_bit_int_eq_self)
qed

lemma quo64_ticks: "quo64 a ticks = Some (word_of_int (sint a sdiv 100))"
  by (simp add: quo64_def ticks_def)

lemma periodic_Some:
  assumes "startPos < length (Fields contents)"
  shows "periodic (Some contents) (Some uptime) st =
     (let total = parseInt64 (Fields contents ! utimePos) + parseInt64 (Fields contents ! stimePos);
          seconds = uptime - word_of_int (sint (parseInt64 (Fields contents ! startPos)) sdiv 100);
          st1 = st\<lparr>lastTotal := total, lastSeconds := seconds\<rparr>
      in if 0 <s seconds - lastSeconds st
         then (st1\<lparr>ipcpu := word_of_int (sint (word_of_int (sint ((total - lastTotal st) * 1000) sdiv 100) :: int64)
                                  sdiv sint (seconds - lastSeconds st))\<rparr>, Rescheduled second)
         else (st1, Rescheduled second))"
  using assms
  by (simp add: periodic_def index_def startPos_def utimePos_def stimePos_def Let_def quo64_ticks)
    (auto simp: quo64_def)


lemma stat_fields:
  "Fields (bytes ''7 (sh) S 3 4 5 6 7 8 9 10 11 12 300 200 15 16 17 18 19 20 5000 22 2x 24'') =
     map bytes [''7'', ''(sh)'', ''S'', ''3'', ''4'', ''5'', ''6'', ''7'', ''8'', ''9'', ''10'', ''11'', ''12'',
       ''300'', ''200'', ''15'', ''16'', ''17'', ''18'', ''19'', ''20'', ''5000'', ''22'', ''2x'', ''24'']"
  by (simp add: Fields_def bytes_def asciiSpace_def)

lemma stat_fields2:
  "Fields (bytes ''7 (sh) S 3 4 5 6 7 8 9 10 11 12 300 200 15 16 17 18 19 20 5000 22 23 24'') =
     map bytes [''7'', ''(sh)'', ''S'', ''3'', ''4'', ''5'', ''6'', ''7'', ''8'', ''9'', ''10'', ''11'', ''12'',
       ''300'', ''200'', ''15'', ''16'', ''17'', ''18'', ''19'', ''20'', ''5000'', ''22'', ''23'', ''24'']"
  by (simp add: Fields_def bytes_def asciiSpace_def)

lemma parse_examples:
  "parseInt64 (bytes ''300'') = 300" "parseInt64 (bytes ''200'') = 200"
  "parseInt64 (bytes ''5000'') = 5000" "parseInt64 (bytes ''22'') = 22"
  "parseInt64 (bytes ''23'') = 23" "parseInt64 (bytes ''2x'') = - 1"
  by (simp_all add: parseInt64_def bytes_def asciiZero_def asciiNine_def)

subsection \<open>The memory figures\<close>

text \<open>
  Claim C5. Every call of \<open>Usage\<close> that returns \<open>nil\<close> has read a stat record, has set
  \<open>rss\<close> to the parsed field 23 shifted left by 12 bits (times 4096, wrapping) and
  \<open>vss\<close> to the parsed field 22.
\<close>

theorem Usage_linux_memory:
  "Usage_linux readFile st out = (Nil, out') \<Longrightarrow>
   \<exists>contents. readFile = Some contents \<and> rssPos < length (Fields contents) \<and>
     rss out' = push_bit 12 (parseInt64 (Fields contents ! rssPos)) \<and>
     rss out' = parseInt64 (Fields contents ! rssPos) * 4096 \<and>
     vss out' = parseInt64 (Fields contents ! vssPos)"
  by (cases readFile) (auto simp: Usage_linux_Some Usage_linux_None push_bit_eq_mult split: if_splits)

theorem Usage_linux_memory_witness:
  "Usage_linux (Some (bytes ''7 (sh) S 3 4 5 6 7 8 9 10 11 12 300 200 15 16 17 18 19 20 5000 22 23 24''))
     \<lparr>lastTotal = 0, lastSeconds = 0, ipcpu = 0\<rparr> \<lparr>pcpu = 1, rss = 2, vss = 3\<rparr> =
     (Nil, \<lparr>pcpu = 0, rss = 94208, vss = 22\<rparr>) \<and>
   (\<exists>contents. Some (bytes ''7 (sh) S 3 4 5 6 7 8 9 10 11 12 300 200 15 16 17 18 19 20 5000 22 23 24'') = Some contents \<and>
      rssPos < length (Fields contents) \<and>
      (94208 :: int64) = push_bit 12 (parseInt64 (Fields contents ! rssPos)) \<and>
      (94208 :: int64) = parseInt64 (Fields contents ! rssPos) * 4096 \<and>
      (22 :: int64) = parseInt64 (Fields contents ! vssPos))"
proof -
  have h: "Usage_linux (Some (bytes ''7 (sh) S 3 4 5 6 7 8 9 10 11 12 300 200 15 16 17 18 19 20 5000 22 23 24''))
     \<lparr>lastTotal = 0, lastSeconds = 0, ipcpu = 0\<rparr> \<lparr>pcpu = 1, rss = 2, vss = 3\<rparr> =
     (Nil, \<lparr>pcpu = 0, rss = 94208, vss = 22\<rparr>)"
    by (simp add: Usage_linux_Some stat_fields2 rssPos_def vssPos_def parse_examples
        float64_examples push_bit_eq_mult)
  show ?thesis using h Usage_linux_memory [OF h] by simp
qed

subsection \<open>Malformed fields\<close>

text \<open>
  Claim C6. \<open>parseInt64\<close> returns \<open>-1\<close> for the empty field and for every field with
  a byte outside \<open>'0'\<close> to \<open>'9'\<close>. So on a stat record whose field 23 has such a byte,
  \<open>Usage\<close> returns \<open>nil\<close> with \<open>rss\<close> equal to \<open>-1 << 12\<close>, that is \<open>-4096\<close>.
\<close>

theorem parseInt64_fails_soft:
  "((d = [] \<or> (\<exists>b\<in>set d. b < 48 \<or> 57 < b)) \<longrightarrow> parseInt64 d = - 1) \<and>
   (rssPos < length (Fields contents) \<and> (\<exists>b\<in>set (Fields contents ! rssPos). b < 48 \<or> 57 < b) \<longrightarrow>
      (\<exists>out'. Usage_linux (Some contents) st out = (Nil, out') \<and>
          rss out' = push_bit 12 (- 1) \<and> sint (rss out') = - 4096))"
proof -
  have "sint (push_bit 12 (- 1 :: int64)) = - 4096"
    unfolding push_bit_eq_mult by simp
  then show ?thesis
    by (auto simp: parseInt64_bad Usage_linux_Some)
qed

theorem parseInt64_fails_soft_witness:
  "parseInt64 (bytes ''2x'') = - 1 \<and> parseInt64 [] = - 1 \<and>
   (\<exists>out'. Usage_linux (Some (bytes ''7 (sh) S 3 4 5 6 7 8 9 10 11 12 300 200 15 16 17 18 19 20 5000 22 2x 24''))
       \<lparr>lastTotal = 0, lastSeconds = 0, ipcpu = 0\<rparr> \<lparr>pcpu = 1, rss = 2, vss = 3\<rparr> = (Nil, out') \<and>
       rss out' = push_bit 12 (- 1) \<and> sint (rss out') = - 4096)"
proof -
  have a: "\<exists>b\<in>set (bytes ''2x''). b < 48 \<or> 57 < b"
    by (simp add: bytes_def)
  have b: "rssPos < length (Fields (bytes ''7 (sh) S 3 4 5 6 7 8 9 10 11 12 300 200 15 16 17 18 19 20 5000 22 2x 24''))"
    by (simp add: stat_fields rssPos_def)
  have c: "\<exists>b\<in>set (Fields (bytes ''7 (sh) S 3 4 5 6 7 8 9 10 11 12 300 200 15 16 17 18 19 20 5000 22 2x 24'') ! rssPos). b < 48 \<or> 57 < b"
    unfolding stat_fields by (simp add: rssPos_def bytes_def)
  show ?thesis
    using parseInt64_fails_soft [of "bytes ''2x''"] parseInt64_fails_soft [of "[]"]
      parseInt64_fails_soft [of _ "bytes ''7 (sh) S 3 4 5 6 7 8 9 10 11 12 300 200 15 16 17 18 19 20 5000 22 2x 24''"
         "\<lparr>lastTotal = 0, lastSeconds = 0, ipcpu = 0\<rparr>" "\<lparr>pcpu = 1, rss = 2, vss = 3\<rparr>"] a b c
    by blast
qed

subsection \<open>The read error\<close>

text \<open>
  Claim C9. When \<open>ioutil.ReadFile\<close> fails, \<open>Usage\<close> returns the error and the three
  output locations hold what they held before the call.
\<close>

theorem Usage_linux_read_error:
  "Usage_linux None st out = (Err ReadError, out)"
  by (simp add: Usage_linux_def)

subsection \<open>The CPU estimate\<close>

text \<open>
  Claim C1. On a tick of \<open>periodic\<close> that reads the stat record and the uptime, let
  \<open>dt\<close> be the new total of user and kernel ticks minus \<open>lastTotal\<close>, and \<open>ds\<close> the
  new elapsed seconds minus \<open>lastSeconds\<close>. The clock rate \<open>ticks\<close> is 100. If \<open>ds\<close> is
  strictly positive, \<open>ipcpu\<close> becomes \<open>(dt * 1000 / ticks) / ds\<close>, with the product
  wrapping in \<open>int64\<close> and both quotients truncated; if \<open>ds\<close> is zero or negative,
  \<open>ipcpu\<close> keeps its value. In both cases the tick stores the new total and the new
  elapsed seconds in \<open>lastTotal\<close> and \<open>lastSeconds\<close>, so the next deltas are taken from
  this tick. A successful \<open>Usage\<close> afterwards reports \<open>pcpu\<close> as \<open>float64(ipcpu) / 10.0\<close>,
  which for \<open>ipcpu\<close> below \<open>2^53\<close> in absolute value is the \<open>float64\<close> nearest to
  \<open>ipcpu\<close> divided by 10. For \<open>dt = 200\<close> and \<open>ds = 2\<close> the stored value is 1000 and
  \<open>pcpu\<close> is 100.
\<close>

theorem periodic_cpu_estimate:
  assumes "startPos < length (Fields contents)"
    and "periodic (Some contents) (Some uptime) st = (st', r)"
    and "dt = parseInt64 (Fields contents ! utimePos) + parseInt64 (Fields contents ! stimePos) - lastTotal st"
    and "quo64 (parseInt64 (Fields contents ! startPos)) ticks = Some q"
    and "ds = uptime - q - lastSeconds st"
    and "Usage_linux readFile st' out = (Nil, out')"
  shows "sint ticks = 100 \<and>
    lastTotal st' = parseInt64 (Fields contents ! utimePos) + parseInt64 (Fields contents ! stimePos) \<and>
    lastSeconds st' = uptime - q \<and>
    (0 < sint ds \<longrightarrow> sint (ipcpu st') = (sint (dt * 1000) sdiv sint ticks) sdiv sint ds) \<and>
    (sint ds \<le> 0 \<longrightarrow> ipcpu st' = ipcpu st) \<and>
    pcpu out' = float64_quo (float64_of_int64 (ipcpu st')) 10 \<and>
    (\<bar>sint (ipcpu st')\<bar> < 2 ^ 53 \<longrightarrow>
       pcpu out' = float64_round (real_of_int (sint (ipcpu st')) / 10)) \<and>
    (dt = 200 \<and> ds = 2 \<longrightarrow> sint (ipcpu st') = 1000 \<and> pcpu out' = 100)"
proof -
  have t: "sint ticks = 100" by (simp add: ticks_def)
  have q: "q = word_of_int (sint (parseInt64 (Fields contents ! startPos)) sdiv 100)"
    using assms(4) by (simp add: quo64_ticks)
  have l: "lastTotal st' = parseInt64 (Fields contents ! utimePos) + parseInt64 (Fields contents ! stimePos)"
    "lastSeconds st' = uptime - q"
    using assms(2) unfolding periodic_Some [OF assms(1)] Let_def q
    by (auto split: if_splits)
  have p: "pcpu out' = float64_quo (float64_of_int64 (ipcpu st')) 10"
    using assms(6) by (cases readFile) (auto simp: Usage_linux_None Usage_linux_Some split: if_splits)
  have p': "\<bar>sint (ipcpu st')\<bar> < 2 ^ 53 \<longrightarrow>
       pcpu out' = float64_round (real_of_int (sint (ipcpu st')) / 10)"
    unfolding p float64_quo_def using float64_of_int64_exact [of "ipcpu st'"] by simp
  have pos: "0 < sint ds \<longrightarrow> sint (ipcpu st') = (sint (dt * 1000) sdiv sint ticks) sdiv sint ds"
  proof
    assume d: "0 < sint ds"
    then have "0 <s ds" by (simp add: word_sless_alt)
    then have i: "ipcpu st' = word_of_int (sint (word_of_int (sint (dt * 1000) sdiv 100) :: int64) sdiv sint ds)"
      using assms(2) unfolding periodic_Some [OF assms(1)] Let_def assms(3) assms(5) q by auto
    have "quo64 (dt * 1000) ticks = Some (word_of_int (sint (dt * 1000) sdiv 100))"
      by (rule quo64_ticks)
    then have m: "sint (word_of_int (sint (dt * 1000) sdiv 100) :: int64) = sint (dt * 1000) sdiv sint ticks"
      using sint_quo64 [of ticks "dt * 1000"] t by simp
    have "ds \<noteq> 0" using d by auto
    then have "quo64 (word_of_int (sint (dt * 1000) sdiv 100)) ds = Some (ipcpu st')"
      unfolding i by (simp add: quo64_def)
    from sint_quo64 [OF d this] show "sint (ipcpu st') = (sint (dt * 1000) sdiv sint ticks) sdiv sint ds"
      using m by simp
  qed
  have neg: "sint ds \<le> 0 \<longrightarrow> ipcpu st' = ipcpu st"
  proof
    assume "sint ds \<le> 0"
    then have "\<not> 0 <s ds" by (simp add: word_sless_alt)
    then show "ipcpu st' = ipcpu st"
      using assms(2) unfolding periodic_Some [OF assms(1)] Let_def assms(3) assms(5) q by auto
  qed
  have ex: "dt = 200 \<and> ds = 2 \<longrightarrow> sint (ipcpu st') = 1000 \<and> pcpu out' = 100"
  proof
    assume a: "dt = 200 \<and> ds = 2"
    then have s: "sint (ipcpu st') = 1000" using pos t by (simp add: signed_divide_int_def)
    then have "word_of_int (sint (ipcpu st')) = (1000 :: int64)" by simp
    then have "ipcpu st' = 1000" by simp
    then show "sint (ipcpu st') = 1000 \<and> pcpu out' = 100" using p s by (simp add: float64_examples)
  qed
  show ?thesis using t l pos neg p p' ex by blast
qed

theorem periodic_cpu_estimate_witness:
  "periodic (Some (bytes ''7 (sh) S 3 4 5 6 7 8 9 10 11 12 300 200 15 16 17 18 19 20 5000 22 23 24''))
     (Some 62) \<lparr>lastTotal = 300, lastSeconds = 10, ipcpu = 50\<rparr> =
     (\<lparr>lastTotal = 500, lastSeconds = 12, ipcpu = 1000\<rparr>, Rescheduled second) \<and>
   Usage_linux (Some (bytes ''7 (sh) S 3 4 5 6 7 8 9 10 11 12 300 200 15 16 17 18 19 20 5000 22 23 24''))
     \<lparr>lastTotal = 500, lastSeconds = 12, ipcpu = 1000\<rparr> \<lparr>pcpu = 1, rss = 2, vss = 3\<rparr> =
     (Nil, \<lparr>pcpu = 100, rss = 94208, vss = 22\<rparr>) \<and>
   sint (1000 :: int64) = (sint (200 * 1000 :: int64) sdiv sint ticks) sdiv sint (2 :: int64) \<and>
   (100 :: real) = float64_round (real_of_int (sint (1000 :: int64)) / 10) \<and>
   periodic (Some (bytes ''7 (sh) S 3 4 5 6 7 8 9 10 11 12 300 200 15 16 17 18 19 20 5000 22 23 24''))
     (Some 60) \<lparr>lastTotal = 300, lastSeconds = 10, ipcpu = 50\<rparr> =
     (\<lparr>lastTotal = 500, lastSeconds = 10, ipcpu = 50\<rparr>, Rescheduled second) \<and>
   Usage_linux (Some (bytes ''7 (sh) S 3 4 5 6 7 8 9 10 11 12 300 200 15 16 17 18 19 20 5000 22 23 24''))
     \<lparr>lastTotal = 500, lastSeconds = 10, ipcpu = 50\<rparr> \<lparr>pcpu = 1, rss = 2, vss = 3\<rparr> =
     (Nil, \<lparr>pcpu = 5, rss = 94208, vss = 22\<rparr>)"
proof -
  let ?S = "bytes ''7 (sh) S 3 4 5 6 7 8 9 10 11 12 300 200 15 16 17 18 19 20 5000 22 23 24''"
  let ?st = "\<lparr>lastTotal = 300, lastSeconds = 10, ipcpu = 50 :: int64\<rparr>"
  have len: "startPos < length (Fields ?S)"
    by (simp add: stat_fields2 startPos_def)
  have f: "Fields ?S ! utimePos = bytes ''300''" "Fields ?S ! stimePos = bytes ''200''"
    "Fields ?S ! startPos = bytes ''5000''" "Fields ?S ! rssPos = bytes ''23''"
    "Fields ?S ! vssPos = bytes ''22''"
    unfolding stat_fields2 by (simp_all add: utimePos_def stimePos_def startPos_def rssPos_def vssPos_def)
  have q: "quo64 (parseInt64 (Fields ?S ! startPos)) ticks = Some 50"
    by (simp add: f parse_examples quo64_def ticks_def signed_divide_int_def)
  have p1: "periodic (Some ?S) (Some 62) ?st =
      (\<lparr>lastTotal = 500, lastSeconds = 12, ipcpu = 1000\<rparr>, Rescheduled second)"
    by (simp add: periodic_Some [OF len] f parse_examples signed_divide_int_def Let_def word_sless_alt)
  have p2: "periodic (Some ?S) (Some 60) ?st =
      (\<lparr>lastTotal = 500, lastSeconds = 10, ipcpu = 50\<rparr>, Rescheduled second)"
    by (simp add: periodic_Some [OF len] f parse_examples signed_divide_int_def Let_def word_sless_alt)
  have u1: "Usage_linux (Some ?S) \<lparr>lastTotal = 500, lastSeconds = 12, ipcpu = 1000\<rparr>
      \<lparr>pcpu = 1, rss = 2, vss = 3\<rparr> = (Nil, \<lparr>pcpu = 100, rss = 94208, vss = 22\<rparr>)"
    by (simp add: Usage_linux_Some f parse_examples float64_examples push_bit_eq_mult)
      (simp add: stat_fields2 rssPos_def)
  have u2: "Usage_linux (Some ?S) \<lparr>lastTotal = 500, lastSeconds = 10, ipcpu = 50\<rparr>
      \<lparr>pcpu = 1, rss = 2, vss = 3\<rparr> = (Nil, \<lparr>pcpu = 5, rss = 94208, vss = 22\<rparr>)"
    by (simp add: Usage_linux_Some f parse_examples float64_examples push_bit_eq_mult)
      (simp add: stat_fields2 rssPos_def)
  have d1: "(200 :: int64) = parseInt64 (Fields ?S ! utimePos) + parseInt64 (Fields ?S ! stimePos) - lastTotal ?st"
    by (simp add: f parse_examples)
  have s1: "(2 :: int64) = 62 - 50 - lastSeconds ?st" by simp
  have s2: "(0 :: int64) = 60 - 50 - lastSeconds ?st" by simp
  show ?thesis
    using periodic_cpu_estimate [OF len p1 d1 q s1 u1] periodic_cpu_estimate [OF len p2 d1 q s2 u2] p1 p2 u1 u2
    by simp
qed

subsection \<open>Rescheduling\<close>

text \<open>
  Claim C2 says that every run of \<open>periodic\<close> schedules the next one, also when a read
  fails. The run returns at the failed \<open>ioutil.ReadFile\<close>, and at the failed
  \<open>syscall.Sysinfo\<close>, before it reaches \<open>time.AfterFunc\<close>: nothing is scheduled.
\<close>

theorem periodic_stops_on_failure:
  "periodic None sysinfo st = (st, Stopped) \<and>
   periodic (Some (bytes ''7 (sh) S 3 4 5 6 7 8 9 10 11 12 300 200 15 16 17 18 19 20 5000 22 23 24'')) None st
     = (st, Stopped)"
  by (simp add: periodic_def stat_fields2 index_def startPos_def utimePos_def stimePos_def)

section \<open>Properties of the counter session\<close>

subsection \<open>Auxiliary facts\<close>

lemma getCounterArrayData_calls:
  "c \<in> set (snd (getCounterArrayData env h)) \<Longrightarrow> \<not> is_init_call c"
  by (auto simp: getCounterArrayData_def Let_def split: prod.splits if_splits)

lemma and_then_calls:
  assumes "\<And>c. c \<in> set (snd m) \<Longrightarrow> P c" "\<And>a c. c \<in> set (snd (f a)) \<Longrightarrow> P c"
    and "c \<in> set (snd (and_then m f))"
  shows "P c"
  using assms by (auto simp: and_then_def split: prod.splits outcome.splits) (metis snd_conv)

lemma collectArrays_calls:
  "c \<in> set (snd (collectArrays env s)) \<Longrightarrow> \<not> is_init_call c"
  unfolding collectArrays_def
  by (erule and_then_calls [rotated -1], simp, (erule and_then_calls [rotated -1], erule getCounterArrayData_calls)+, simp)

lemma collectSample_calls_eq:
  "snd (snd (snd (collectSample env s out))) = snd (collectArrays env s)"
  by (auto simp: collectSample_def split: prod.splits outcome.splits ret.splits)

lemma collectSample_Nil:
  "collectSample env s out = (Nil, out', s', k) \<Longrightarrow>
   s' = s\<lparr>prevCPU := pcpu out', prevRss := rss out', prevVss := vss out'\<rparr>"
  by (auto simp: collectSample_def split: prod.splits outcome.splits ret.splits)

lemma collectSample_initialSample:
  "initialSample (fst (snd (snd (collectSample env s out)))) = initialSample s"
  by (auto simp: collectSample_def split: prod.splits outcome.splits ret.splits)


lemma findPid_None:
  "findPid pidAry pid i = None \<longleftrightarrow> (\<forall>j<length pidAry. int_of_float64 (pidAry ! j) \<noteq> pid)"
proof (induction pidAry arbitrary: i)
  case Nil
  show ?case by simp
next
  case (Cons v pidAry)
  show ?case
    by (simp add: Cons.IH All_less_Suc2)
qed

lemma findPid_first:
  "idx < length pidAry \<Longrightarrow> int_of_float64 (pidAry ! idx) = pid \<Longrightarrow>
   \<forall>j<idx. int_of_float64 (pidAry ! j) \<noteq> pid \<Longrightarrow> findPid pidAry pid i = Some (i + idx)"
proof (induction pidAry arbitrary: i idx)
  case Nil
  then show ?case by simp
next
  case (Cons v pidAry)
  show ?case
  proof (cases idx)
    case 0
    then show ?thesis using Cons.prems by simp
  next
    case (Suc n)
    have "int_of_float64 v \<noteq> pid" using Cons.prems(3) Suc by auto
    moreover have "findPid pidAry pid (Suc i) = Some (Suc i + n)"
      using Cons.prems Suc by (intro Cons.IH) auto
    ultimately show ?thesis using Suc by simp
  qed
qed


lemma TrimRight_fixed:
  "s = [] \<or> last s \<notin> set cutset \<Longrightarrow> TrimRight s cutset = s"
  by (subst TrimRight.simps) auto

lemma TrimRight_suffix:
  "\<exists>suf. s = TrimRight s cutset @ suf \<and> set suf \<subseteq> set cutset"
proof (induction s cutset rule: TrimRight.induct)
  case (1 s cutset)
  show ?case
  proof (cases "s \<noteq> [] \<and> last s \<in> set cutset")
    case True
    then obtain suf where "butlast s = TrimRight (butlast s) cutset @ suf" "set suf \<subseteq> set cutset"
      using "1.IH" by blast
    then have "s = TrimRight s cutset @ (suf @ [last s]) \<and> set (suf @ [last s]) \<subseteq> set cutset"
      using True by (simp add: TrimRight.simps [of s]) (metis append_assoc append_butlast_last_id)
    then show ?thesis by blast
  next
    case False
    then have "TrimRight s cutset = s" by (intro TrimRight_fixed) auto
    then show ?thesis by simp
  qed
qed

lemma TrimRight_last:
  "TrimRight s cutset = [] \<or> last (TrimRight s cutset) \<notin> set cutset"
proof (induction s cutset rule: TrimRight.induct)
  case (1 s cutset)
  show ?case
  proof (cases "s \<noteq> [] \<and> last s \<in> set cutset")
    case True
    then show ?thesis using "1.IH" by (simp add: TrimRight.simps [of s])
  next
    case False
    then have "TrimRight s cutset = s" by (intro TrimRight_fixed) auto
    then show ?thesis using False by auto
  qed
qed

lemma TrimRight_append:
  "set suf \<subseteq> set cutset \<Longrightarrow> TrimRight (s @ suf) cutset = TrimRight s cutset"
proof (induction suf rule: rev_induct)
  case Nil
  show ?case by simp
next
  case (snoc c suf)
  then have "TrimRight (s @ suf @ [c]) cutset = TrimRight (s @ suf) cutset"
    by (subst TrimRight.simps) (simp add: butlast_append)
  then show ?case using snoc by simp
qed

lemma initCounters_initialSample:
  "initialSample (fst (snd (initCounters env s))) = initialSample s"
  unfolding initCounters_def Let_def by (simp split: if_splits)

lemma initCounters_calls:
  "\<exists>k. snd (snd (initCounters env s)) = PdhOpenQuery # k"
  unfolding initCounters_def Let_def by (simp split: if_splits)

lemma wrapper_simps:
  "fst (pdhOpenQuery env) = None \<longleftrightarrow> fst (os_open env) = 0"
  "snd (pdhOpenQuery env) = snd (os_open env)"
  "fst (pdhAddCounter env q p) = None \<longleftrightarrow> fst (os_add env q p) = 0"
  "snd (pdhAddCounter env q p) = snd (os_add env q p)"
  "pdhCollectQueryData r = None \<longleftrightarrow> r = 0"
  by (simp_all add: pdhOpenQuery_def pdhAddCounter_def pdhCollectQueryData_def split: prod.splits)

lemma initCounters_None_iff:
  "fst (initCounters env s) = None \<longleftrightarrow>
     fst (os_open env) = 0 \<and>
     fst (os_add env (snd (os_open env)) (counterPath (getProcessExeName env @ ''*'') ''ID Process'')) = 0 \<and>
     fst (os_add env (snd (os_open env)) (counterPath (getProcessExeName env @ ''*'') ''% Processor Time'')) = 0 \<and>
     fst (os_add env (snd (os_open env)) (counterPath (getProcessExeName env @ ''*'') ''Working Set - Private'')) = 0 \<and>
     fst (os_add env (snd (os_open env)) (counterPath (getProcessExeName env @ ''*'') ''Virtual Bytes'')) = 0 \<and>
     os_collect0 env = 0"
  unfolding initCounters_def Let_def
  by (simp add: wrapper_simps)

lemma collectArrays_initialSample [simp]:
  "collectArrays env (s\<lparr>initialSample := b\<rparr>) = collectArrays env s"
  by (simp add: collectArrays_def)

lemma Usage_windows_init_fail:
  "initialSample s \<Longrightarrow> fst (initCounters env s) = Some e \<Longrightarrow>
   Usage_windows env s out = (Err e, out, snd (initCounters env s))"
  by (cases "initCounters env s") (simp add: Usage_windows_def)

lemma Usage_windows_cached:
  "\<not> initialSample s \<Longrightarrow> os_since env - lastSampleTime s < 2 * second \<Longrightarrow>
   Usage_windows env s out =
     (Nil, \<lparr>pcpu = prevCPU s, rss = prevRss s, vss = prevVss s\<rparr>, s, [])"
  by (simp add: Usage_windows_def)

lemma Usage_windows_fresh:
  "\<not> initialSample s \<Longrightarrow> \<not> os_since env - lastSampleTime s < 2 * second \<Longrightarrow>
   Usage_windows env s out = deferred env (collectSample env s out)"
  by (simp add: Usage_windows_def)

lemma Usage_windows_init_ok:
  "initialSample s \<Longrightarrow> fst (initCounters env s) = None \<Longrightarrow>
   Usage_windows env s out =
     (case deferred env (collectSample env ((fst (snd (initCounters env s)))\<lparr>initialSample := False\<rparr>) out) of
        (e, out', s2, k') \<Rightarrow> (e, out', s2, snd (snd (initCounters env s)) @ k'))"
  by (cases "initCounters env s") (simp add: Usage_windows_def)

lemma collectSample_resolve:
  "fst (collectArrays env s) = Value (pidAry, cpuAry, rssAry, vssAry) \<Longrightarrow>
   fst (collectSample env s out) = fst (resolvePid env pidAry cpuAry rssAry vssAry (processPid s) out) \<and>
   fst (snd (collectSample env s out)) = snd (resolvePid env pidAry cpuAry rssAry vssAry (processPid s) out)"
  by (cases "collectArrays env s"; cases "resolvePid env pidAry cpuAry rssAry vssAry (processPid s) out")
    (auto simp: collectSample_def split: ret.splits)

lemma deferred_fst: "fst (deferred env r) = fst r" "fst (snd (deferred env r)) = fst (snd r)"
  "snd (snd (snd (deferred env r))) = snd (snd (snd r))"
  "initialSample (fst (snd (snd (deferred env r)))) = initialSample (fst (snd (snd r)))"
  by (simp_all add: deferred_def split: prod.splits)

text \<open>What a call that goes past the throttle check returns, from the session it collects on.\<close>

lemma Usage_windows_collects:
  assumes "initialSample s \<and> fst (initCounters env s) = None \<and> s1 = fst (snd (initCounters env s)) \<or>
           \<not> initialSample s \<and> \<not> os_since env - lastSampleTime s < 2 * second \<and> s1 = s"
  shows "fst (Usage_windows env s out) = fst (collectSample env s1 out) \<and>
         fst (snd (Usage_windows env s out)) = fst (snd (collectSample env s1 out))"
proof -
  have i: "collectSample env (s'\<lparr>initialSample := False\<rparr>) out' =
      (case collectSample env s' out' of (r, out'', s'', k) \<Rightarrow> (r, out'', s''\<lparr>initialSample := False\<rparr>, k))"
    for s' out'
    by (auto simp: collectSample_def split: prod.splits outcome.splits ret.splits)
  from assms show ?thesis
  proof
    assume a: "initialSample s \<and> fst (initCounters env s) = None \<and> s1 = fst (snd (initCounters env s))"
    then show ?thesis
      by (simp add: Usage_windows_init_ok i deferred_def split: prod.splits)
  next
    assume a: "\<not> initialSample s \<and> \<not> os_since env - lastSampleTime s < 2 * second \<and> s1 = s"
    then show ?thesis
      by (simp add: Usage_windows_fresh deferred_fst)
  qed
qed

lemma resolvePid_none:
  "\<forall>i<length pidAry. int_of_float64 (pidAry ! i) \<noteq> pid \<Longrightarrow>
   resolvePid env pidAry cpuAry rssAry vssAry pid out = (Err PidNotFound, out)"
  using findPid_None [of pidAry pid 0] by (simp add: resolvePid_def)

lemma resolvePid_first:
  assumes "idx < length pidAry" "int_of_float64 (pidAry ! idx) = pid"
    "\<forall>j<idx. int_of_float64 (pidAry ! j) \<noteq> pid"
    "idx < length cpuAry" "idx < length rssAry" "idx < length vssAry"
  shows "resolvePid env pidAry cpuAry rssAry vssAry pid out =
     (Nil, \<lparr>pcpu = cpuAry ! idx, rss = int64_of_float64 (os_int64 env) (rssAry ! idx),
             vss = int64_of_float64 (os_int64 env) (vssAry ! idx)\<rparr>)"
  using findPid_first [OF assms(1-3), of 0] assms(4-6) by (simp add: resolvePid_def index_def)

lemma initCounters_processPid:
  "processPid (fst (snd (initCounters env s))) = os_getpid env"
  unfolding initCounters_def Let_def by (simp split: if_splits)

lemma exe_example: "getProcessExeName os_example = ''nod''"
proof -
  have "TrimRight (''nod'' @ ''e.exe'') ''.exe'' = TrimRight ''nod'' ''.exe''"
    by (rule TrimRight_append) simp
  also have "\<dots> = ''nod''" by (rule TrimRight_fixed) simp
  finally show ?thesis by (simp add: getProcessExeName_def os_example_def)
qed

lemma init_example:
  "initCounters os_example initial_session =
     (None, \<lparr>pcHandle = 1, pidCounter = 25, cpuCounter = 31, rssCounter = 36, vssCounter = 28,
       prevCPU = 0, prevRss = 0, prevVss = 0, lastSampleTime = 0, processPid = 42,
       initialSample = True\<rparr>,
      [PdhOpenQuery,
       PdhAddCounterW 1 (counterPath ''nod*'' ''ID Process''),
       PdhAddCounterW 1 (counterPath ''nod*'' ''% Processor Time''),
       PdhAddCounterW 1 (counterPath ''nod*'' ''Working Set - Private''),
       PdhAddCounterW 1 (counterPath ''nod*'' ''Virtual Bytes''),
       PdhCollectQueryData 1, Sleep 50])"
  unfolding initCounters_def Let_def exe_example
  by (simp add: os_example_def initial_session_def pdhOpenQuery_def pdhAddCounter_def
      pdhCollectQueryData_def counterPath_def)

lemma Usage_windows_initialised:
  assumes "\<not> initialSample s"
  shows "\<not> initialSample (fst (snd (snd (Usage_windows env s out))))"
    and "c \<in> set (snd (snd (snd (Usage_windows env s out)))) \<Longrightarrow> \<not> is_init_call c"
proof -
  show "\<not> initialSample (fst (snd (snd (Usage_windows env s out))))"
    using assms
    by (cases "os_since env - lastSampleTime s < 2 * second")
      (simp_all add: Usage_windows_cached Usage_windows_fresh deferred_fst collectSample_initialSample)
  show "c \<in> set (snd (snd (snd (Usage_windows env s out)))) \<Longrightarrow> \<not> is_init_call c"
    using assms
    by (cases "os_since env - lastSampleTime s < 2 * second")
      (auto simp: Usage_windows_cached Usage_windows_fresh deferred_fst collectSample_calls_eq
        dest: collectArrays_calls)
qed

lemma Usage_calls_initialised:
  "\<not> initialSample s \<Longrightarrow>
   \<not> initialSample (fst (Usage_calls calls s)) \<and>
   (\<forall>c\<in>set (snd (Usage_calls calls s)). \<not> is_init_call c)"
proof (induction calls arbitrary: s)
  case Nil
  then show ?case by simp
next
  case (Cons a calls)
  obtain env out where a: "a = (env, out)" by (cases a)
  obtain e out' s' k where u: "Usage_windows env s out = (e, out', s', k)"
    by (cases "Usage_windows env s out")
  have s': "\<not> initialSample s'" and k: "\<forall>c\<in>set k. \<not> is_init_call c"
    using Usage_windows_initialised [OF Cons.prems, where env = env and out = out] u by auto
  from Cons.IH [OF s'] show ?case
    using k by (auto simp: a u split: prod.splits)
qed

lemma Usage_windows_reinit:
  assumes "initialSample s"
  shows "\<exists>k. snd (snd (snd (Usage_windows env s out))) = snd (snd (initCounters env s)) @ k"
proof (cases "fst (initCounters env s)")
  case None
  then show ?thesis using assms
    by (simp add: Usage_windows_init_ok split: prod.splits)
next
  case (Some e)
  then show ?thesis using assms
    by (simp add: Usage_windows_init_fail)
qed

lemma Usage_windows_init_ok_session:
  "initialSample s \<Longrightarrow> fst (initCounters env s) = None \<Longrightarrow>
   fst (snd (snd (Usage_windows env s out))) =
     fst (snd (snd (deferred env
       (collectSample env ((fst (snd (initCounters env s)))\<lparr>initialSample := False\<rparr>) out))))"
  by (simp add: Usage_windows_init_ok split: prod.splits)


lemma arrays_example:
  "pidCounter s = 25 \<Longrightarrow> cpuCounter s = 31 \<Longrightarrow> rssCounter s = 36 \<Longrightarrow> vssCounter s = 28 \<Longrightarrow>
   fst (collectArrays (os_example\<lparr>os_getpid := p, os_since := t, os_now := t'\<rparr>) s) =
     Value ([7, 42], [12.5, 2.5], [1000, 2000], [3000, 4000])"
  by (simp add: collectArrays_def and_then_def pdhCollectQueryData_def
      getCounterArrayData_def os_example_def maxQuerySize_def Let_def upt_rec)

lemma init_example':
  "initCounters (os_example\<lparr>os_getpid := p, os_since := t, os_now := t'\<rparr>) initial_session =
     (None, \<lparr>pcHandle = 1, pidCounter = 25, cpuCounter = 31, rssCounter = 36, vssCounter = 28,
       prevCPU = 0, prevRss = 0, prevVss = 0, lastSampleTime = 0, processPid = p,
       initialSample = True\<rparr>,
      [PdhOpenQuery,
       PdhAddCounterW 1 (counterPath ''nod*'' ''ID Process''),
       PdhAddCounterW 1 (counterPath ''nod*'' ''% Processor Time''),
       PdhAddCounterW 1 (counterPath ''nod*'' ''Working Set - Private''),
       PdhAddCounterW 1 (counterPath ''nod*'' ''Virtual Bytes''),
       PdhCollectQueryData 1, Sleep 50])"
proof -
  have "getProcessExeName (os_example\<lparr>os_getpid := p, os_since := t, os_now := t'\<rparr>) = ''nod''"
    using exe_example by (simp add: getProcessExeName_def)
  then show ?thesis
    unfolding initCounters_def Let_def
    by (simp add: os_example_def initial_session_def pdhOpenQuery_def pdhAddCounter_def
      pdhCollectQueryData_def counterPath_def)
qed

subsection \<open>Finding the process in the counter arrays\<close>

text \<open>
  Claim C7. A call of \<open>Usage\<close> that goes past the throttle check (the first call after
  \<open>initCounters\<close> succeeded, or a later call 2 seconds or more after \<open>lastSampleTime\<close>)
  and whose collection and four fetches give \<open>pidAry\<close>, \<open>cpuAry\<close>, \<open>rssAry\<close> and
  \<open>vssAry\<close> compares \<open>int(pidAry[i])\<close> with \<open>processPid\<close>, the process's own id. If no
  index matches it returns the pid-not-found error and writes nothing; if one matches it
  does not return that error, and with \<open>idx\<close> the first matching index, present in the
  three other arrays, it returns \<open>nil\<close> with \<open>cpuAry[idx]\<close>, \<open>int64(rssAry[idx])\<close> and
  \<open>int64(vssAry[idx])\<close>: the truncated value where it fits \<open>int64\<close>, and what the
  machine gives for the conversion where it does not.
\<close>

theorem Usage_windows_pid_lookup:
  assumes "initialSample s \<and> fst (initCounters env s) = None \<and> s1 = fst (snd (initCounters env s)) \<or>
           \<not> initialSample s \<and> \<not> os_since env - lastSampleTime s < 2 * second \<and> s1 = s"
    and "fst (collectArrays env s1) = Value (pidAry, cpuAry, rssAry, vssAry)"
  shows "(initialSample s \<longrightarrow> processPid s1 = os_getpid env) \<and>
    ((\<forall>i<length pidAry. int_of_float64 (pidAry ! i) \<noteq> processPid s1) \<longrightarrow>
       fst (Usage_windows env s out) = Err PidNotFound \<and> fst (snd (Usage_windows env s out)) = out) \<and>
    ((\<exists>i<length pidAry. int_of_float64 (pidAry ! i) = processPid s1) \<longrightarrow>
       fst (Usage_windows env s out) \<noteq> Err PidNotFound) \<and>
    (\<forall>idx. idx < length pidAry \<and> int_of_float64 (pidAry ! idx) = processPid s1 \<and>
        (\<forall>j<idx. int_of_float64 (pidAry ! j) \<noteq> processPid s1) \<and>
        idx < length cpuAry \<and> idx < length rssAry \<and> idx < length vssAry \<longrightarrow>
       fst (Usage_windows env s out) = Nil \<and>
       fst (snd (Usage_windows env s out)) =
         \<lparr>pcpu = cpuAry ! idx, rss = int64_of_float64 (os_int64 env) (rssAry ! idx),
          vss = int64_of_float64 (os_int64 env) (vssAry ! idx)\<rparr> \<and>
       (- (2 ^ 63) \<le> int_of_float64 (rssAry ! idx) \<and> int_of_float64 (rssAry ! idx) < 2 ^ 63 \<longrightarrow>
          sint (rss (fst (snd (Usage_windows env s out)))) = int_of_float64 (rssAry ! idx)) \<and>
       (- (2 ^ 63) \<le> int_of_float64 (vssAry ! idx) \<and> int_of_float64 (vssAry ! idx) < 2 ^ 63 \<longrightarrow>
          sint (vss (fst (snd (Usage_windows env s out)))) = int_of_float64 (vssAry ! idx)))"
proof -
  note u = Usage_windows_collects [OF assms(1), of out]
  note c = collectSample_resolve [OF assms(2), of out]
  have 1: "initialSample s \<longrightarrow> processPid s1 = os_getpid env"
    using assms(1) by (auto simp: initCounters_processPid)
  have 2: "fst (Usage_windows env s out) = Err PidNotFound \<and> fst (snd (Usage_windows env s out)) = out"
    if "\<forall>i<length pidAry. int_of_float64 (pidAry ! i) \<noteq> processPid s1"
    using u c resolvePid_none [OF that, of env] by simp
  have 3: "fst (Usage_windows env s out) \<noteq> Err PidNotFound"
    if "\<exists>i<length pidAry. int_of_float64 (pidAry ! i) = processPid s1"
  proof -
    from that have "findPid pidAry (processPid s1) 0 \<noteq> None"
      by (simp add: findPid_None)
    then have "fst (resolvePid env pidAry cpuAry rssAry vssAry (processPid s1) out) \<noteq> Err PidNotFound"
      by (auto simp: resolvePid_def split: option.splits)
    then show ?thesis using u c by simp
  qed
  have 4: "fst (Usage_windows env s out) = Nil \<and>
       fst (snd (Usage_windows env s out)) =
         \<lparr>pcpu = cpuAry ! idx, rss = int64_of_float64 (os_int64 env) (rssAry ! idx),
          vss = int64_of_float64 (os_int64 env) (vssAry ! idx)\<rparr> \<and>
       (- (2 ^ 63) \<le> int_of_float64 (rssAry ! idx) \<and> int_of_float64 (rssAry ! idx) < 2 ^ 63 \<longrightarrow>
          sint (rss (fst (snd (Usage_windows env s out)))) = int_of_float64 (rssAry ! idx)) \<and>
       (- (2 ^ 63) \<le> int_of_float64 (vssAry ! idx) \<and> int_of_float64 (vssAry ! idx) < 2 ^ 63 \<longrightarrow>
          sint (vss (fst (snd (Usage_windows env s out)))) = int_of_float64 (vssAry ! idx))"
    if "idx < length pidAry" "int_of_float64 (pidAry ! idx) = processPid s1"
        "\<forall>j<idx. int_of_float64 (pidAry ! j) \<noteq> processPid s1"
        "idx < length cpuAry" "idx < length rssAry" "idx < length vssAry" for idx
    using u c resolvePid_first [OF that, of env out] by (simp add: sint_int64_of_float64)
  show ?thesis using 1 2 3 4 by blast
qed

theorem Usage_windows_pid_lookup_witness:
  "fst (Usage_windows (os_example\<lparr>os_getpid := 42, os_since := 0, os_now := 0\<rparr>) initial_session
          \<lparr>pcpu = 0, rss = 0, vss = 0\<rparr>) = Nil \<and>
   fst (snd (Usage_windows (os_example\<lparr>os_getpid := 42, os_since := 0, os_now := 0\<rparr>) initial_session
          \<lparr>pcpu = 0, rss = 0, vss = 0\<rparr>)) = \<lparr>pcpu = 5 / 2, rss = 2000, vss = 4000\<rparr> \<and>
   sint (rss (fst (snd (Usage_windows (os_example\<lparr>os_getpid := 42, os_since := 0, os_now := 0\<rparr>)
          initial_session \<lparr>pcpu = 0, rss = 0, vss = 0\<rparr>)))) = int_of_float64 2000 \<and>
   sint (vss (fst (snd (Usage_windows (os_example\<lparr>os_getpid := 42, os_since := 0, os_now := 0\<rparr>)
          initial_session \<lparr>pcpu = 0, rss = 0, vss = 0\<rparr>)))) = int_of_float64 4000 \<and>
   fst (Usage_windows (os_example\<lparr>os_getpid := 43, os_since := 0, os_now := 0\<rparr>) initial_session
          \<lparr>pcpu = 0, rss = 0, vss = 0\<rparr>) = Err PidNotFound \<and>
   fst (snd (Usage_windows (os_example\<lparr>os_getpid := 43, os_since := 0, os_now := 0\<rparr>) initial_session
          \<lparr>pcpu = 0, rss = 0, vss = 0\<rparr>)) = \<lparr>pcpu = 0, rss = 0, vss = 0\<rparr>"
proof -
  let ?s1 = "\<lambda>p. fst (snd (initCounters (os_example\<lparr>os_getpid := p, os_since := 0, os_now := 0\<rparr>) initial_session))"
  have i: "initialSample initial_session" by (simp add: initial_session_def)
  have a: "initialSample initial_session \<and>
      fst (initCounters (os_example\<lparr>os_getpid := p, os_since := 0, os_now := 0\<rparr>) initial_session) = None \<and>
      ?s1 p = fst (snd (initCounters (os_example\<lparr>os_getpid := p, os_since := 0, os_now := 0\<rparr>) initial_session)) \<or>
      \<not> initialSample initial_session \<and>
      \<not> os_since (os_example\<lparr>os_getpid := p, os_since := 0, os_now := 0\<rparr>) - lastSampleTime initial_session < 2 * second \<and>
      ?s1 p = initial_session" for p
    by (simp add: init_example' i)
  have b: "fst (collectArrays (os_example\<lparr>os_getpid := p, os_since := 0, os_now := 0\<rparr>) (?s1 p)) =
      Value ([7, 42], [12.5, 2.5], [1000, 2000], [3000, 4000])" for p
    by (rule arrays_example) (simp_all add: init_example')
  have p: "processPid (?s1 p) = p" for p
    by (simp add: init_example')
  have c: "int64_of_float64 platform 2000 = 2000" "int64_of_float64 platform 4000 = 4000"
    "int_of_float64 7 = 7" "int_of_float64 42 = 42" for platform
    by (simp_all add: int64_of_float64_examples int_of_float64_def)
  have m: "fst (Usage_windows (os_example\<lparr>os_getpid := 42, os_since := 0, os_now := 0\<rparr>) initial_session
          \<lparr>pcpu = 0, rss = 0, vss = 0\<rparr>) = Nil \<and>
      fst (snd (Usage_windows (os_example\<lparr>os_getpid := 42, os_since := 0, os_now := 0\<rparr>) initial_session
          \<lparr>pcpu = 0, rss = 0, vss = 0\<rparr>)) = \<lparr>pcpu = 5 / 2, rss = 2000, vss = 4000\<rparr> \<and>
      sint (rss (fst (snd (Usage_windows (os_example\<lparr>os_getpid := 42, os_since := 0, os_now := 0\<rparr>)
          initial_session \<lparr>pcpu = 0, rss = 0, vss = 0\<rparr>)))) = int_of_float64 2000 \<and>
      sint (vss (fst (snd (Usage_windows (os_example\<lparr>os_getpid := 42, os_since := 0, os_now := 0\<rparr>)
          initial_session \<lparr>pcpu = 0, rss = 0, vss = 0\<rparr>)))) = int_of_float64 4000"
  proof -
    have g: "- (2 ^ 63) \<le> int_of_float64 ([1000, 2000] ! 1) \<and> int_of_float64 ([1000, 2000] ! 1) < 2 ^ 63"
      "- (2 ^ 63) \<le> int_of_float64 ([3000, 4000] ! 1) \<and> int_of_float64 ([3000, 4000] ! 1) < 2 ^ 63"
      by (simp_all add: int_of_float64_def)
    show ?thesis
      using Usage_windows_pid_lookup [OF a b, of 42 "\<lparr>pcpu = 0, rss = 0, vss = 0\<rparr>",
          THEN conjunct2, THEN conjunct2, THEN conjunct2, THEN spec, of 1] g
      by (simp add: p c int_of_float64_def)
  qed
  have n: "fst (Usage_windows (os_example\<lparr>os_getpid := 43, os_since := 0, os_now := 0\<rparr>) initial_session
          \<lparr>pcpu = 0, rss = 0, vss = 0\<rparr>) = Err PidNotFound \<and>
      fst (snd (Usage_windows (os_example\<lparr>os_getpid := 43, os_since := 0, os_now := 0\<rparr>) initial_session
          \<lparr>pcpu = 0, rss = 0, vss = 0\<rparr>)) = \<lparr>pcpu = 0, rss = 0, vss = 0\<rparr>"
    using Usage_windows_pid_lookup [OF a b, of 43 "\<lparr>pcpu = 0, rss = 0, vss = 0\<rparr>",
        THEN conjunct2, THEN conjunct1]
    by (simp add: p c less_Suc_eq_0_disj numeral_2_eq_2)
  show ?thesis using m n by (simp add: int_of_float64_def)
qed

subsection \<open>Initialisation\<close>

text \<open>
  Claim C8. \<open>initCounters\<close> fails exactly when \<open>PdhOpenQuery\<close>, one of the four
  \<open>PdhAddCounterW\<close> or the first \<open>PdhCollectQueryData\<close> gives a status other than 0.
  When it fails on the first call, \<open>Usage\<close> returns its error, writes nothing, and
  \<open>initialSample\<close> stays true: whatever the next call meets, it starts with all the
  library calls of \<open>initCounters\<close>, \<open>PdhOpenQuery\<close> first. When \<open>initCounters\<close>
  succeeds, \<open>initialSample\<close> is false after the call; and from a session where it is
  false, after any sequence of calls of \<open>Usage\<close> it is still false and none of them has
  called \<open>PdhOpenQuery\<close> or \<open>PdhAddCounterW\<close>.
\<close>

theorem initialisation_until_success:
  "(fst (initCounters env s) \<noteq> None \<longleftrightarrow>
      fst (os_open env) \<noteq> 0 \<or>
      fst (os_add env (snd (os_open env)) (counterPath (getProcessExeName env @ ''*'') ''ID Process'')) \<noteq> 0 \<or>
      fst (os_add env (snd (os_open env)) (counterPath (getProcessExeName env @ ''*'') ''% Processor Time'')) \<noteq> 0 \<or>
      fst (os_add env (snd (os_open env)) (counterPath (getProcessExeName env @ ''*'') ''Working Set - Private'')) \<noteq> 0 \<or>
      fst (os_add env (snd (os_open env)) (counterPath (getProcessExeName env @ ''*'') ''Virtual Bytes'')) \<noteq> 0 \<or>
      os_collect0 env \<noteq> 0) \<and>
   (initialSample s \<and> fst (initCounters env s) = Some e \<longrightarrow>
      (\<exists>s' k. Usage_windows env s out = (Err e, out, s', k) \<and> initialSample s' \<and>
         (\<forall>env2 out2. \<exists>k2 k3.
            snd (snd (snd (Usage_windows env2 s' out2))) = snd (snd (initCounters env2 s')) @ k2 \<and>
            snd (snd (initCounters env2 s')) = PdhOpenQuery # k3))) \<and>
   (initialSample s \<and> fst (initCounters env s) = None \<longrightarrow>
      \<not> initialSample (fst (snd (snd (Usage_windows env s out))))) \<and>
   (\<not> initialSample s \<longrightarrow>
      \<not> initialSample (fst (Usage_calls calls s)) \<and>
      (\<forall>c\<in>set (snd (Usage_calls calls s)). \<not> is_init_call c))"
proof -
  have 1: "fst (initCounters env s) \<noteq> None \<longleftrightarrow>
      fst (os_open env) \<noteq> 0 \<or>
      fst (os_add env (snd (os_open env)) (counterPath (getProcessExeName env @ ''*'') ''ID Process'')) \<noteq> 0 \<or>
      fst (os_add env (snd (os_open env)) (counterPath (getProcessExeName env @ ''*'') ''% Processor Time'')) \<noteq> 0 \<or>
      fst (os_add env (snd (os_open env)) (counterPath (getProcessExeName env @ ''*'') ''Working Set - Private'')) \<noteq> 0 \<or>
      fst (os_add env (snd (os_open env)) (counterPath (getProcessExeName env @ ''*'') ''Virtual Bytes'')) \<noteq> 0 \<or>
      os_collect0 env \<noteq> 0"
    unfolding initCounters_None_iff by blast
  have 2: "\<exists>s' k. Usage_windows env s out = (Err e, out, s', k) \<and> initialSample s' \<and>
         (\<forall>env2 out2. \<exists>k2 k3.
            snd (snd (snd (Usage_windows env2 s' out2))) = snd (snd (initCounters env2 s')) @ k2 \<and>
            snd (snd (initCounters env2 s')) = PdhOpenQuery # k3)"
    if a: "initialSample s" "fst (initCounters env s) = Some e"
  proof -
    let ?s' = "fst (snd (initCounters env s))"
    have u: "Usage_windows env s out = (Err e, out, ?s', snd (snd (initCounters env s)))"
      using Usage_windows_init_fail [OF a] by simp
    have i: "initialSample ?s'" using a(1) by (simp add: initCounters_initialSample)
    have "\<exists>k2 k3. snd (snd (snd (Usage_windows env2 ?s' out2))) = snd (snd (initCounters env2 ?s')) @ k2 \<and>
            snd (snd (initCounters env2 ?s')) = PdhOpenQuery # k3" for env2 out2
      using Usage_windows_reinit [OF i, of env2 out2] initCounters_calls [of env2 ?s'] by blast
    then show ?thesis using u i by blast
  qed
  have 3: "\<not> initialSample (fst (snd (snd (Usage_windows env s out))))"
    if "initialSample s" "fst (initCounters env s) = None"
    using that
    by (simp add: Usage_windows_init_ok_session deferred_fst collectSample_initialSample)
  show ?thesis using 1 2 3 Usage_calls_initialised [of s calls] by blast
qed

theorem initialisation_until_success_witness:
  "fst (initCounters (os_example\<lparr>os_collect0 := 5\<rparr>) initial_session) = Some (PdhCollectQueryDataFailed 5) \<and>
   (\<exists>s' k. Usage_windows (os_example\<lparr>os_collect0 := 5\<rparr>) initial_session \<lparr>pcpu = 0, rss = 0, vss = 0\<rparr> =
       (Err (PdhCollectQueryDataFailed 5), \<lparr>pcpu = 0, rss = 0, vss = 0\<rparr>, s', k) \<and> initialSample s' \<and>
       (\<exists>k2. snd (snd (snd (Usage_windows os_example s' \<lparr>pcpu = 0, rss = 0, vss = 0\<rparr>))) =
          PdhOpenQuery # k2)) \<and>
   \<not> initialSample (fst (snd (snd (Usage_windows (os_example\<lparr>os_getpid := 42, os_since := 0, os_now := 0\<rparr>)
        initial_session \<lparr>pcpu = 0, rss = 0, vss = 0\<rparr>)))) \<and>
   \<not> initialSample (fst (Usage_calls [(os_example, \<lparr>pcpu = 0, rss = 0, vss = 0\<rparr>),
        (os_example, \<lparr>pcpu = 0, rss = 0, vss = 0\<rparr>)] (initial_session\<lparr>initialSample := False\<rparr>))) \<and>
   PdhOpenQuery \<notin> set (snd (Usage_calls [(os_example, \<lparr>pcpu = 0, rss = 0, vss = 0\<rparr>),
        (os_example, \<lparr>pcpu = 0, rss = 0, vss = 0\<rparr>)] (initial_session\<lparr>initialSample := False\<rparr>)))"
proof -
  let ?out = "\<lparr>pcpu = 0, rss = 0, vss = 0\<rparr> :: usage_out"
  let ?calls = "[(os_example, ?out), (os_example, ?out)]"
  have i: "initialSample initial_session" by (simp add: initial_session_def)
  have f: "fst (initCounters (os_example\<lparr>os_collect0 := 5\<rparr>) initial_session) =
      Some (PdhCollectQueryDataFailed 5)"
    by (simp add: initCounters_def Let_def wrapper_simps os_example_def pdhCollectQueryData_def)
  have g: "fst (initCounters (os_example\<lparr>os_getpid := 42, os_since := 0, os_now := 0\<rparr>) initial_session) = None"
    by (simp add: init_example')
  have n: "\<not> initialSample (initial_session\<lparr>initialSample := False\<rparr>)" by simp
  note t = initialisation_until_success
  from t [of "os_example\<lparr>os_collect0 := 5\<rparr>" initial_session "PdhCollectQueryDataFailed 5" ?out]
  obtain s' k where 1: "Usage_windows (os_example\<lparr>os_collect0 := 5\<rparr>) initial_session ?out =
       (Err (PdhCollectQueryDataFailed 5), ?out, s', k)" "initialSample s'"
       "\<forall>env2 out2. \<exists>k2 k3.
            snd (snd (snd (Usage_windows env2 s' out2))) = snd (snd (initCounters env2 s')) @ k2 \<and>
            snd (snd (initCounters env2 s')) = PdhOpenQuery # k3"
    using i f by blast
  from 1(3) obtain k2 k3 where "snd (snd (snd (Usage_windows os_example s' ?out))) = snd (snd (initCounters os_example s')) @ k2"
    "snd (snd (initCounters os_example s')) = PdhOpenQuery # k3" by blast
  then have 2: "\<exists>k2. snd (snd (snd (Usage_windows os_example s' ?out))) = PdhOpenQuery # k2" by simp
  have 3: "\<not> initialSample (fst (snd (snd (Usage_windows (os_example\<lparr>os_getpid := 42, os_since := 0, os_now := 0\<rparr>)
        initial_session ?out))))"
    using t [of "os_example\<lparr>os_getpid := 42, os_since := 0, os_now := 0\<rparr>" initial_session _ ?out] i g by blast
  have 4: "\<not> initialSample (fst (Usage_calls ?calls (initial_session\<lparr>initialSample := False\<rparr>)))"
    "\<forall>c\<in>set (snd (Usage_calls ?calls (initial_session\<lparr>initialSample := False\<rparr>))). \<not> is_init_call c"
    using t [of _ "initial_session\<lparr>initialSample := False\<rparr>" _ _ ?calls] n by blast+
  have 5: "PdhOpenQuery \<notin> set (snd (Usage_calls ?calls (initial_session\<lparr>initialSample := False\<rparr>)))"
    using 4(2) by auto
  show ?thesis using f 1(1,2) 2 3 4(1) 5 by blast
qed

subsection \<open>Calls that sample\<close>

text \<open>The session after the first call of the example, which sampled at time 0.\<close>

lemma sampled_example:
  "\<exists>k. Usage_windows (os_example\<lparr>os_getpid := 42, os_since := 0, os_now := 0\<rparr>) initial_session out =
     (Nil, \<lparr>pcpu = 5 / 2, rss = 2000, vss = 4000\<rparr>,
      \<lparr>pcHandle = 1, pidCounter = 25, cpuCounter = 31, rssCounter = 36, vssCounter = 28,
       prevCPU = 5 / 2, prevRss = 2000, prevVss = 4000, lastSampleTime = 0, processPid = 42,
       initialSample = False\<rparr>, PdhOpenQuery # k)"
proof -
  let ?env = "os_example\<lparr>os_getpid := 42, os_since := 0, os_now := 0\<rparr>"
  let ?s1 = "\<lparr>pcHandle = 1, pidCounter = 25, cpuCounter = 31, rssCounter = 36, vssCounter = 28,
       prevCPU = 0, prevRss = 0, prevVss = 0, lastSampleTime = 0, processPid = 42,
       initialSample = False\<rparr>"
  have i: "initialSample initial_session" by (simp add: initial_session_def)
  have a: "fst (collectArrays ?env ?s1) = Value ([7, 42], [12.5, 2.5], [1000, 2000], [3000, 4000])"
    by (rule arrays_example) simp_all
  have r: "resolvePid ?env [7, 42] [12.5, 2.5] [1000, 2000] [3000, 4000] 42 out =
      (Nil, \<lparr>pcpu = 5 / 2, rss = 2000, vss = 4000\<rparr>)"
    using resolvePid_first [where idx = 1 and pidAry = "[7, 42]" and pid = 42
        and cpuAry = "[12.5, 2.5]" and rssAry = "[1000, 2000]" and vssAry = "[3000, 4000]"
        and env = ?env and out = out]
    by (simp add: int64_of_float64_examples int_of_float64_def)
  obtain k where k: "collectArrays ?env ?s1 = (Value ([7, 42], [12.5, 2.5], [1000, 2000], [3000, 4000]), k)"
    using a by (cases "collectArrays ?env ?s1") simp
  have c: "collectSample ?env ?s1 out =
      (Nil, \<lparr>pcpu = 5 / 2, rss = 2000, vss = 4000\<rparr>,
       ?s1\<lparr>prevCPU := 5 / 2, prevRss := 2000, prevVss := 4000\<rparr>, k)"
    using r by (simp add: collectSample_def k)
  show ?thesis
    using i by (simp add: Usage_windows_init_ok init_example' c deferred_def)
qed

lemma collectSample_sampled:
  "collectSample env s out = (Nil, snap, s', k) \<Longrightarrow>
   initialSample s' = initialSample s \<and> prevCPU s' = pcpu snap \<and> prevRss s' = rss snap \<and>
   prevVss s' = vss snap"
  using collectSample_Nil [of env s out snap s' k] by simp

lemma Usage_windows_sampled:
  assumes "Usage_windows env s out = (Nil, snap, s1, k)" "k \<noteq> []"
  shows "\<not> initialSample s1 \<and> lastSampleTime s1 = os_now env \<and>
         prevCPU s1 = pcpu snap \<and> prevRss s1 = rss snap \<and> prevVss s1 = vss snap"
proof (cases "initialSample s")
  case True
  show ?thesis
  proof (cases "fst (initCounters env s)")
    case None
    let ?s0 = "(fst (snd (initCounters env s)))\<lparr>initialSample := False\<rparr>"
    obtain e out' s2 k' where c: "collectSample env ?s0 out = (e, out', s2, k')"
      by (cases "collectSample env ?s0 out")
    have "Usage_windows env s out =
        (e, out', s2\<lparr>lastSampleTime := os_now env\<rparr>, snd (snd (initCounters env s)) @ k')"
      by (simp add: Usage_windows_init_ok [OF True None] c deferred_def)
    then have "e = Nil" "out' = snap" "s1 = s2\<lparr>lastSampleTime := os_now env\<rparr>"
      using assms(1) by simp_all
    then show ?thesis using collectSample_sampled [of env ?s0 out snap s2 k'] c by simp
  next
    case (Some e)
    then show ?thesis using assms(1) True by (simp add: Usage_windows_init_fail)
  qed
next
  case False
  show ?thesis
  proof (cases "os_since env - lastSampleTime s < 2 * second")
    case True
    then show ?thesis using assms False by (simp add: Usage_windows_cached)
  next
    case nc: False
    obtain e out' s2 k' where c: "collectSample env s out = (e, out', s2, k')"
      by (cases "collectSample env s out")
    have "Usage_windows env s out = (e, out', s2\<lparr>lastSampleTime := os_now env\<rparr>, k')"
      by (simp add: Usage_windows_fresh [OF False nc] c deferred_def)
    then have "e = Nil" "out' = snap" "s1 = s2\<lparr>lastSampleTime := os_now env\<rparr>"
      using assms(1) by simp_all
    then show ?thesis using collectSample_sampled [of env s out snap s2 k'] c False by simp
  qed
qed

lemma initCounters_second_call:
  "fst (os_open env) = 0 \<Longrightarrow>
   snd (snd (initCounters env s)) ! 1 =
     PdhAddCounterW (snd (os_open env)) (counterPath (getProcessExeName env @ ''*'') ''ID Process'')"
  unfolding initCounters_def Let_def by (simp add: wrapper_simps)

subsection \<open>The throttle\<close>

text \<open>
  Claim C4, as the code has it. On an initialised session, a call of \<open>Usage\<close> made
  less than 2 seconds after \<open>lastSampleTime\<close> returns \<open>nil\<close> with the cached
  \<open>prevCPU\<close>, \<open>prevRss\<close> and \<open>prevVss\<close>, leaves the session as it was and makes no
  library call. Hence a call made less than 2 seconds after the end of a call that
  sampled and returned \<open>nil\<close> returns that call's snapshot, and two calls that are both
  less than 2 seconds after the same \<open>lastSampleTime\<close> return the same snapshot.
\<close>

theorem Usage_windows_throttle:
  "(\<not> initialSample s \<and> os_since env - lastSampleTime s < 2 * second \<longrightarrow>
      Usage_windows env s out =
        (Nil, \<lparr>pcpu = prevCPU s, rss = prevRss s, vss = prevVss s\<rparr>, s, [])) \<and>
   (Usage_windows env1 s out1 = (Nil, snap, s1, k1) \<and> k1 \<noteq> [] \<and>
    os_since env2 - os_now env1 < 2 * second \<longrightarrow>
      Usage_windows env2 s1 out2 = (Nil, snap, s1, [])) \<and>
   (\<not> initialSample s \<and> os_since env1 - lastSampleTime s < 2 * second \<and>
    os_since env2 - lastSampleTime s < 2 * second \<longrightarrow>
      (\<exists>snap'. Usage_windows env1 s out1 = (Nil, snap', s, []) \<and>
               Usage_windows env2 s out2 = (Nil, snap', s, [])))"
proof -
  have 2: "Usage_windows env2 s1 out2 = (Nil, snap, s1, [])"
    if a: "Usage_windows env1 s out1 = (Nil, snap, s1, k1)" "k1 \<noteq> []"
      and b: "os_since env2 - os_now env1 < 2 * second"
  proof -
    from Usage_windows_sampled [OF a] have s1: "\<not> initialSample s1" "lastSampleTime s1 = os_now env1"
      "prevCPU s1 = pcpu snap" "prevRss s1 = rss snap" "prevVss s1 = vss snap" by simp_all
    have "Usage_windows env2 s1 out2 =
        (Nil, \<lparr>pcpu = prevCPU s1, rss = prevRss s1, vss = prevVss s1\<rparr>, s1, [])"
      using s1(1) b by (intro Usage_windows_cached) (simp_all add: s1(2))
    then show ?thesis by (simp add: s1)
  qed
  show ?thesis using 2 by (auto simp: Usage_windows_cached)
qed

theorem Usage_windows_throttle_witness:
  "Usage_windows (os_at 1500000000) sampled_session \<lparr>pcpu = 0, rss = 0, vss = 0\<rparr> =
     (Nil, \<lparr>pcpu = 5 / 2, rss = 2000, vss = 4000\<rparr>, sampled_session, []) \<and>
   (\<exists>k. Usage_windows (os_at 0) initial_session \<lparr>pcpu = 0, rss = 0, vss = 0\<rparr> =
      (Nil, \<lparr>pcpu = 5 / 2, rss = 2000, vss = 4000\<rparr>, sampled_session, k) \<and> k \<noteq> []) \<and>
   Usage_windows (os_busy_at 1999999999) sampled_session \<lparr>pcpu = 1, rss = 1, vss = 1\<rparr> =
     (Nil, \<lparr>pcpu = 5 / 2, rss = 2000, vss = 4000\<rparr>, sampled_session, [])"
proof -
  let ?out = "\<lparr>pcpu = 0, rss = 0, vss = 0\<rparr> :: usage_out"
  have n: "\<not> initialSample sampled_session \<and> os_since (os_at 1500000000) - lastSampleTime sampled_session < 2 * second"
    by (simp add: sampled_session_def os_at_def second_def)
  have 1: "Usage_windows (os_at 1500000000) sampled_session ?out =
     (Nil, \<lparr>pcpu = 5 / 2, rss = 2000, vss = 4000\<rparr>, sampled_session, [])"
    using Usage_windows_throttle [THEN conjunct1, of sampled_session "os_at 1500000000" ?out] n
    by (simp add: sampled_session_def)
  obtain k where k: "Usage_windows (os_at 0) initial_session ?out =
      (Nil, \<lparr>pcpu = 5 / 2, rss = 2000, vss = 4000\<rparr>, sampled_session, PdhOpenQuery # k)"
    using sampled_example [of ?out] unfolding os_at_def sampled_session_def by blast
  have b: "os_since (os_busy_at 1999999999) - os_now (os_at 0) < 2 * second"
    by (simp add: os_busy_at_def os_at_def second_def)
  have 2: "Usage_windows (os_busy_at 1999999999) sampled_session \<lparr>pcpu = 1, rss = 1, vss = 1\<rparr> =
     (Nil, \<lparr>pcpu = 5 / 2, rss = 2000, vss = 4000\<rparr>, sampled_session, [])"
    using Usage_windows_throttle [THEN conjunct2, THEN conjunct1, of "os_at 0" initial_session ?out
        "\<lparr>pcpu = 5 / 2, rss = 2000, vss = 4000\<rparr>" sampled_session "PdhOpenQuery # k"
        "os_busy_at 1999999999" "\<lparr>pcpu = 1, rss = 1, vss = 1\<rparr>"] k b
    by simp
  have c: "\<not> initialSample sampled_session \<and> os_since (os_at 1500000000) - lastSampleTime sampled_session < 2 * second \<and>
      os_since (os_busy_at 1999999999) - lastSampleTime sampled_session < 2 * second"
    by (simp add: sampled_session_def os_at_def os_busy_at_def second_def)
  from Usage_windows_throttle [THEN conjunct2, THEN conjunct2, of sampled_session "os_at 1500000000"
      "os_busy_at 1999999999" ?out "\<lparr>pcpu = 1, rss = 1, vss = 1\<rparr>"] c
  have 3: "\<exists>snap'. Usage_windows (os_at 1500000000) sampled_session ?out = (Nil, snap', sampled_session, []) \<and>
      Usage_windows (os_busy_at 1999999999) sampled_session \<lparr>pcpu = 1, rss = 1, vss = 1\<rparr> = (Nil, snap', sampled_session, [])"
    by blast
  show ?thesis using 1 2 3 k by blast
qed

text \<open>
  Claim C4 as stated fails: the throttle counts from \<open>lastSampleTime\<close>, not from the
  call before. After a sample at time 0, a call at 1.5 s returns the cached snapshot and
  a call at 2.5 s, one second later, collects again and returns the new figures.
\<close>

theorem throttle_counterexample:
  "Usage_windows (os_at 1500000000) sampled_session \<lparr>pcpu = 0, rss = 0, vss = 0\<rparr> =
     (Nil, \<lparr>pcpu = 5 / 2, rss = 2000, vss = 4000\<rparr>, sampled_session, []) \<and>
   fst (Usage_windows (os_busy_at 2500000000) sampled_session \<lparr>pcpu = 0, rss = 0, vss = 0\<rparr>) = Nil \<and>
   fst (snd (Usage_windows (os_busy_at 2500000000) sampled_session \<lparr>pcpu = 0, rss = 0, vss = 0\<rparr>)) =
     \<lparr>pcpu = 42, rss = 42, vss = 42\<rparr> \<and>
   os_since (os_busy_at 2500000000) - os_since (os_at 1500000000) < 2 * second"
proof -
  let ?out = "\<lparr>pcpu = 0, rss = 0, vss = 0\<rparr> :: usage_out"
  have n: "\<not> initialSample sampled_session" "lastSampleTime sampled_session = 0"
    "prevCPU sampled_session = 5 / 2" "prevRss sampled_session = 2000" "prevVss sampled_session = 4000"
    "processPid sampled_session = 42"
    by (simp_all add: sampled_session_def)
  have t: "os_since (os_at t) = t" "os_since (os_busy_at t) = t" for t
    by (simp_all add: os_at_def os_busy_at_def)
  have 1: "Usage_windows (os_at 1500000000) sampled_session ?out =
     (Nil, \<lparr>pcpu = 5 / 2, rss = 2000, vss = 4000\<rparr>, sampled_session, [])"
    using Usage_windows_cached [of sampled_session "os_at 1500000000" ?out]
    by (simp add: n t second_def)
  have f: "fst (collectArrays (os_busy_at 2500000000) sampled_session) = Value ([42], [42], [42], [42])"
    by (simp add: collectArrays_def and_then_def pdhCollectQueryData_def getCounterArrayData_def
        os_busy_at_def os_at_def os_example_def maxQuerySize_def Let_def upt_rec)
  have r: "resolvePid (os_busy_at 2500000000) [42] [42] [42] [42] 42 ?out =
      (Nil, \<lparr>pcpu = 42, rss = 42, vss = 42\<rparr>)"
    using resolvePid_first [where idx = 0 and pidAry = "[42]" and pid = 42 and cpuAry = "[42]"
        and rssAry = "[42]" and vssAry = "[42]" and env = "os_busy_at 2500000000" and out = ?out]
    by (simp add: int64_of_float64_examples int_of_float64_def)
  have 2: "fst (Usage_windows (os_busy_at 2500000000) sampled_session ?out) = Nil \<and>
      fst (snd (Usage_windows (os_busy_at 2500000000) sampled_session ?out)) =
        \<lparr>pcpu = 42, rss = 42, vss = 42\<rparr>"
    using collectSample_resolve [OF f, of ?out] r
    by (simp add: Usage_windows_fresh n t second_def deferred_fst)
  show ?thesis using 1 2 by (simp add: t second_def)
qed

subsection \<open>The image name\<close>

text \<open>
  Claim C10. \<open>getProcessExeName\<close> returns the base name of \<open>os.Args[0]\<close> without its
  longest suffix of characters among \<open>.\<close>, \<open>e\<close> and \<open>x\<close>: what it removes is made of
  these characters and what it returns is empty or ends in another character. So for a
  base name \<open>n.exe\<close> where \<open>n\<close> itself ends in one of the three, the result is shorter
  than \<open>n\<close>; where \<open>n\<close> does not, the result is \<open>n\<close>. This name, followed by
  \<open>*\<close>, is in the counter paths that \<open>initCounters\<close> passes to \<open>PdhAddCounterW\<close>.
\<close>

theorem getProcessExeName_trims_cutset:
  "(\<exists>suf. filepath_Base env (os_args0 env) = getProcessExeName env @ suf \<and>
      set suf \<subseteq> {CHR ''.'', CHR ''e'', CHR ''x''}) \<and>
   (getProcessExeName env = [] \<or> last (getProcessExeName env) \<notin> {CHR ''.'', CHR ''e'', CHR ''x''}) \<and>
   (filepath_Base env (os_args0 env) = n @ ''.exe'' \<and> n \<noteq> [] \<and>
    last n \<in> {CHR ''.'', CHR ''e'', CHR ''x''} \<longrightarrow>
      getProcessExeName env = TrimRight (butlast n) ''.exe'' \<and>
      length (getProcessExeName env) < length n) \<and>
   (filepath_Base env (os_args0 env) = n @ ''.exe'' \<and>
    (n = [] \<or> last n \<notin> {CHR ''.'', CHR ''e'', CHR ''x''}) \<longrightarrow>
      getProcessExeName env = n) \<and>
   (fst (os_open env) = 0 \<longrightarrow>
      snd (snd (initCounters env s)) ! 1 =
        PdhAddCounterW (snd (os_open env))
          (counterPath (getProcessExeName env @ ''*'') ''ID Process''))"
proof -
  have c: "set ''.exe'' = {CHR ''.'', CHR ''e'', CHR ''x''}" by auto
  have 1: "\<exists>suf. filepath_Base env (os_args0 env) = getProcessExeName env @ suf \<and>
      set suf \<subseteq> {CHR ''.'', CHR ''e'', CHR ''x''}"
    using TrimRight_suffix [of "filepath_Base env (os_args0 env)" "''.exe''"]
    unfolding getProcessExeName_def c .
  have 2: "getProcessExeName env = [] \<or> last (getProcessExeName env) \<notin> {CHR ''.'', CHR ''e'', CHR ''x''}"
    using TrimRight_last [of "filepath_Base env (os_args0 env)" "''.exe''"]
    unfolding getProcessExeName_def c .
  have e: "TrimRight (n @ ''.exe'') ''.exe'' = TrimRight n ''.exe''"
    by (rule TrimRight_append) simp
  have 3: "getProcessExeName env = TrimRight (butlast n) ''.exe'' \<and> length (getProcessExeName env) < length n"
    if a: "filepath_Base env (os_args0 env) = n @ ''.exe''" "n \<noteq> []"
      "last n \<in> {CHR ''.'', CHR ''e'', CHR ''x''}"
  proof -
    have "TrimRight n ''.exe'' = TrimRight (butlast n) ''.exe''"
      using a(2,3) by (subst TrimRight.simps [of n]) auto
    then have g: "getProcessExeName env = TrimRight (butlast n) ''.exe''"
      by (simp add: getProcessExeName_def a(1) e)
    obtain suf where "butlast n = TrimRight (butlast n) ''.exe'' @ suf"
      using TrimRight_suffix [of "butlast n" "''.exe''"] by blast
    then have "length (TrimRight (butlast n) ''.exe'') \<le> length (butlast n)"
      by (metis length_append le_add1)
    moreover have "0 < length n" using a(2) by simp
    ultimately show ?thesis using g by (cases n) auto
  qed
  have 4: "getProcessExeName env = n"
    if "filepath_Base env (os_args0 env) = n @ ''.exe''"
      "n = [] \<or> last n \<notin> {CHR ''.'', CHR ''e'', CHR ''x''}"
  proof -
    have "TrimRight n ''.exe'' = n" using that(2) by (intro TrimRight_fixed) auto
    then show ?thesis by (simp add: getProcessExeName_def that(1) e)
  qed
  show ?thesis using 1 2 3 4 initCounters_second_call [of env s] by blast
qed

theorem getProcessExeName_trims_cutset_witness:
  "getProcessExeName os_example = ''nod'' \<and>
   filepath_Base os_example (os_args0 os_example) = ''nod'' @ ''e.exe'' \<and>
   length (getProcessExeName os_example) < length ''node'' \<and>
   getProcessExeName (os_example\<lparr>os_args0 := ''app.exe''\<rparr>) = ''app'' \<and>
   snd (snd (initCounters os_example initial_session)) ! 1 =
     PdhAddCounterW 1 (counterPath ''nod*'' ''ID Process'')"
proof -
  note t = getProcessExeName_trims_cutset
  have b: "filepath_Base os_example (os_args0 os_example) = ''node'' @ ''.exe''"
    "filepath_Base (os_example\<lparr>os_args0 := ''app.exe''\<rparr>) (os_args0 (os_example\<lparr>os_args0 := ''app.exe''\<rparr>)) = ''app'' @ ''.exe''"
    "fst (os_open os_example) = 0" "snd (os_open os_example) = 1"
    by (simp_all add: os_example_def)
  have n: "TrimRight (butlast ''node'') ''.exe'' = ''nod''"
    by (simp add: TrimRight_fixed)
  have 3: "getProcessExeName os_example = ''nod'' \<and> length (getProcessExeName os_example) < length ''node''"
    using t [THEN conjunct2, THEN conjunct2, THEN conjunct1, of os_example "''node''"] b(1) n by simp
  have 4: "getProcessExeName (os_example\<lparr>os_args0 := ''app.exe''\<rparr>) = ''app''"
    using t [THEN conjunct2, THEN conjunct2, THEN conjunct2, THEN conjunct1,
        of "os_example\<lparr>os_args0 := ''app.exe''\<rparr>" "''app''"] b(2) by simp
  have 5: "snd (snd (initCounters os_example initial_session)) ! 1 =
     PdhAddCounterW 1 (counterPath ''nod*'' ''ID Process'')"
    using t [THEN conjunct2, THEN conjunct2, THEN conjunct2, THEN conjunct2, of os_example initial_session] b(3,4) 3
    by simp
  have 1: "\<exists>suf. filepath_Base os_example (os_args0 os_example) = getProcessExeName os_example @ suf \<and>
      set suf \<subseteq> {CHR ''.'', CHR ''e'', CHR ''x''}"
    using t [THEN conjunct1, of os_example] .
  then have "filepath_Base os_example (os_args0 os_example) = ''nod'' @ ''e.exe''"
    using b(1) by simp
  then show ?thesis using 3 4 5 by simp
qed

section \<open>Panics\<close>

subsection \<open>Auxiliary facts\<close>












subsection \<open>Where the two backends panic\<close>




end
